theory Spec2Isabelle
  imports Complex_Main "HOL-Library.Multiset"
begin

section \<open>Go strings\<close>

text \<open>
  A Go string is a sequence of bytes, here a \<^typ>\<open>string\<close>.  The functions of package
  \<^verbatim>\<open>strings\<close> that \<^verbatim>\<open>main.go\<close> calls are written out below, with Go's argument
  order.
\<close>

definition HasPrefix :: "string \<Rightarrow> string \<Rightarrow> bool" where
  "HasPrefix s p = (take (length p) s = p)"

definition HasSuffix :: "string \<Rightarrow> string \<Rightarrow> bool" where
  "HasSuffix s p = (length p \<le> length s \<and> drop (length s - length p) s = p)"

definition TrimPrefix :: "string \<Rightarrow> string \<Rightarrow> string" where
  "TrimPrefix s p = (if HasPrefix s p then drop (length p) s else s)"

definition TrimSuffix :: "string \<Rightarrow> string \<Rightarrow> string" where
  "TrimSuffix s p = (if HasSuffix s p then take (length s - length p) s else s)"

text \<open>\<^verbatim>\<open>strings.Contains(s, substr)\<close>: some suffix of \<open>s\<close> starts with \<open>substr\<close>.  The empty
  string is contained in every string.\<close>

fun Contains :: "string \<Rightarrow> string \<Rightarrow> bool" where
  "Contains [] sub = (sub = [])"
| "Contains (c # cs) sub = (HasPrefix (c # cs) sub \<or> Contains cs sub)"

subsection \<open>White space\<close>

text \<open>
  \<^verbatim>\<open>strings.Fields\<close> and \<^verbatim>\<open>strings.TrimSpace\<close> read the string as UTF-8 and ask
  \<^verbatim>\<open>unicode.IsSpace\<close> of every code point.  The code points that are white space are
  U+0009 to U+000D, U+0020, U+0085, U+00A0, U+1680, U+2000 to U+200A, U+2028, U+2029,
  U+202F, U+205F and U+3000; \<open>spaceSeqs\<close> lists their encodings.  Each encoding starts
  with a byte that is not a continuation byte and goes on with continuation bytes only, so
  the decoder reads one of them exactly where its bytes stand in the string; every other
  code point, and every byte that is not valid UTF-8, is not white space.
\<close>

definition spaceSeqs :: "string list" where
  "spaceSeqs =
    [[CHR 0x09], [CHR 0x0A], [CHR 0x0B], [CHR 0x0C], [CHR 0x0D], [CHR 0x20],
     [CHR 0xC2, CHR 0x85], [CHR 0xC2, CHR 0xA0],
     [CHR 0xE1, CHR 0x9A, CHR 0x80],
     [CHR 0xE2, CHR 0x80, CHR 0x80], [CHR 0xE2, CHR 0x80, CHR 0x81],
     [CHR 0xE2, CHR 0x80, CHR 0x82], [CHR 0xE2, CHR 0x80, CHR 0x83],
     [CHR 0xE2, CHR 0x80, CHR 0x84], [CHR 0xE2, CHR 0x80, CHR 0x85],
     [CHR 0xE2, CHR 0x80, CHR 0x86], [CHR 0xE2, CHR 0x80, CHR 0x87],
     [CHR 0xE2, CHR 0x80, CHR 0x88], [CHR 0xE2, CHR 0x80, CHR 0x89],
     [CHR 0xE2, CHR 0x80, CHR 0x8A],
     [CHR 0xE2, CHR 0x80, CHR 0xA8], [CHR 0xE2, CHR 0x80, CHR 0xA9],
     [CHR 0xE2, CHR 0x80, CHR 0xAF],
     [CHR 0xE2, CHR 0x81, CHR 0x9F],
     [CHR 0xE3, CHR 0x80, CHR 0x80]]"

definition IsSpace :: "string \<Rightarrow> bool" where
  "IsSpace r = (r \<in> set spaceSeqs)"

text \<open>The number of bytes of the white-space character at the head of \<open>s\<close>, 0 when \<open>s\<close>
  does not start with one.\<close>

definition spaceWidth :: "string \<Rightarrow> nat" where
  "spaceWidth s = (case find (HasPrefix s) spaceSeqs of None \<Rightarrow> 0 | Some p \<Rightarrow> length p)"

text \<open>
  \<open>runes s\<close> cuts \<open>s\<close> into the pieces the two functions tell apart: each white-space
  character is one piece (of one to three bytes), every other byte is a piece of its own.
\<close>

function runes :: "string \<Rightarrow> string list" where
  "runes [] = []"
| "runes (c # cs) =
     (let w = max 1 (spaceWidth (c # cs))
      in take w (c # cs) # runes (drop w (c # cs)))"
  by pat_completeness auto
termination
  by (relation "measure length") auto

text \<open>\<^verbatim>\<open>strings.Fields\<close>: the maximal runs of characters that are not white space.  The second
  argument of \<open>fieldsFrom\<close> is the field being read.\<close>

fun fieldsFrom :: "string list \<Rightarrow> string \<Rightarrow> string list" where
  "fieldsFrom [] cur = (if cur = [] then [] else [cur])"
| "fieldsFrom (r # rs) cur =
     (if IsSpace r then (if cur = [] then [] else [cur]) @ fieldsFrom rs []
      else fieldsFrom rs (cur @ r))"

definition Fields :: "string \<Rightarrow> string list" where
  "Fields s = fieldsFrom (runes s) []"

text \<open>\<^verbatim>\<open>strings.TrimSpace\<close>: white space is removed from the front, then from the back.\<close>

definition TrimSpace :: "string \<Rightarrow> string" where
  "TrimSpace s = concat (rev (dropWhile IsSpace (rev (dropWhile IsSpace (runes s)))))"

text \<open>\<^verbatim>\<open>strings.Trim(s, cutset)\<close> for a cutset of ASCII bytes, the only use in \<^verbatim>\<open>main.go\<close>.\<close>

definition Trim :: "string \<Rightarrow> string \<Rightarrow> string" where
  "Trim s cutset =
     rev (dropWhile (\<lambda>c. c \<in> set cutset) (rev (dropWhile (\<lambda>c. c \<in> set cutset) s)))"

text \<open>\<^verbatim>\<open>strings.SplitN(s, sep, 2)\<close> for a separator of one byte: the text before the first
  separator and the text after it, or the whole string when it holds no separator.\<close>

definition SplitN2 :: "string \<Rightarrow> char \<Rightarrow> string list" where
  "SplitN2 s sep =
     (if sep \<in> set s
      then [takeWhile (\<lambda>c. c \<noteq> sep) s, tl (dropWhile (\<lambda>c. c \<noteq> sep) s)]
      else [s])"

text \<open>\<^verbatim>\<open>strings.Title\<close>: a letter that follows a separator (or starts the string) is mapped to
  its upper case.  The model is exact on ASCII text, and leaves every byte above 0x7F as it
  is; \<^verbatim>\<open>main.go\<close> calls it on a key of its own catalog of tools, all of them in ASCII.\<close>

definition isSeparator :: "char \<Rightarrow> bool" where
  "isSeparator c =
     (let n = (of_char c :: nat)
      in \<not> ((48 \<le> n \<and> n \<le> 57) \<or> (97 \<le> n \<and> n \<le> 122) \<or> (65 \<le> n \<and> n \<le> 90)
             \<or> n = 95 \<or> 128 \<le> n))"

definition toTitle :: "char \<Rightarrow> char" where
  "toTitle c =
     (let n = (of_char c :: nat) in if 97 \<le> n \<and> n \<le> 122 then char_of (n - 32) else c)"

fun titleFrom :: "char \<Rightarrow> string \<Rightarrow> string" where
  "titleFrom prev [] = []"
| "titleFrom prev (c # cs) = (if isSeparator prev then toTitle c else c) # titleFrom c cs"

definition Title :: "string \<Rightarrow> string" where
  "Title s = titleFrom (CHR '' '') s"

subsection \<open>Regular expressions\<close>

text \<open>
  The four expressions of \<open>analyzeCommandPattern\<close> are built from literals, concatenation
  and alternation.  \<open>MatchString\<close> is unanchored: the expression matches when one of its
  words stands somewhere in the string.
\<close>

datatype regexp = Lit string | Cat regexp regexp | Alt regexp regexp

fun wordsOf :: "regexp \<Rightarrow> string list" where
  "wordsOf (Lit w) = [w]"
| "wordsOf (Cat a b) = concat (map (\<lambda>u. map (\<lambda>v. u @ v) (wordsOf b)) (wordsOf a))"
| "wordsOf (Alt a b) = wordsOf a @ wordsOf b"

definition MatchString :: "regexp \<Rightarrow> string \<Rightarrow> bool" where
  "MatchString re s = list_ex (Contains s) (wordsOf re)"

subsection \<open>Reading lines\<close>

text \<open>
  \<^verbatim>\<open>bufio.Scanner\<close> with the default split function \<^verbatim>\<open>ScanLines\<close>: a line ends at a
  line feed or at the end of the input, a last line that is empty is not delivered, and
  one trailing carriage return is dropped from each line.  The scanner's buffer holds
  \<^verbatim>\<open>MaxScanTokenSize\<close> = 64 KiB; at a line that does not fit, line feed included,
  \<^verbatim>\<open>Scan\<close> returns false for good and \<^verbatim>\<open>Err\<close> reports \<^verbatim>\<open>ErrTooLong\<close>.
  \<open>scanLines\<close> returns the lines delivered and whether \<^verbatim>\<open>Err\<close> is set.
\<close>

fun rawLines :: "string \<Rightarrow> string \<Rightarrow> string list" where
  "rawLines cur [] = (if cur = [] then [] else [cur])"
| "rawLines cur (c # cs) =
     (if c = CHR 0x0A then cur # rawLines [] cs else rawLines (cur @ [c]) cs)"

definition dropCR :: "string \<Rightarrow> string" where
  "dropCR l = (if l \<noteq> [] \<and> last l = CHR 0x0D then butlast l else l)"

definition MaxScanTokenSize :: nat where
  "MaxScanTokenSize = 64 * 1024"

fun scanTokens :: "string list \<Rightarrow> string list \<times> bool" where
  "scanTokens [] = ([], False)"
| "scanTokens (l # ls) =
     (if MaxScanTokenSize \<le> length l then ([], True)
      else (dropCR l # fst (scanTokens ls), snd (scanTokens ls)))"

definition scanLines :: "string \<Rightarrow> string list \<times> bool" where
  "scanLines content = scanTokens (rawLines [] content)"

section \<open>Data structures\<close>

text \<open>
  Of a \<^verbatim>\<open>time.Time\<close> the program reads the hour of the day only.  Go's \<^verbatim>\<open>int\<close> is
  \<^typ>\<open>int\<close>: every \<^verbatim>\<open>int\<close> of the analysis counts elements of a slice and cannot wrap
  around.  A \<^verbatim>\<open>float64\<close> is the real number it stands for; the only floating-point
  operation of the analysis is the quotient of two counts.  A map that the program only
  reads and writes by key is a HOL map; the counters that the program also ranges over
  are lists of key and count with distinct keys.
\<close>

record time =
  Hour :: int

type_synonym float64 = real

type_synonym 'k counts = "('k \<times> int) list"

record CommandEntry =
  Command :: string
  Timestamp :: time
  Count :: int
  Categories :: "string list"

record TechProfile =
  PrimaryRole :: string
  SecondarySkills :: "string list"
  TechStack :: "string list"
  Proficiency :: "string \<rightharpoonup> float64"

record WorkPatterns =
  PeakHours :: "int list"
  CommonWorkflows :: "string list"
  Productivity :: "string \<rightharpoonup> float64"

record ToolUsage =
  Editors :: "string \<rightharpoonup> int"
  Languages :: "string \<rightharpoonup> int"
  BuildTools :: "string \<rightharpoonup> int"

record DetailedInsights =
  TechnicalProfile :: TechProfile
  WorkPatterns :: WorkPatterns
  ToolUsage :: ToolUsage

record ConfigInfo =
  Path :: string
  Modified :: time
  Content :: string

record PluginInfo =
  Name :: string
  Source :: string
  LastUpdated :: time

record ShellConfig =
  ConfigFiles :: "string \<rightharpoonup> ConfigInfo"
  Plugins :: "PluginInfo list"
  Aliases :: "string \<rightharpoonup> string"
  Environment :: "string \<rightharpoonup> string"

record ShellData =
  Histories :: "string \<rightharpoonup> CommandEntry list"
  CommonCmds :: "string \<rightharpoonup> int"
  TimePatterns :: "string \<rightharpoonup> int"
  Insights :: DetailedInsights
  ShellConfigs :: "string \<rightharpoonup> ShellConfig"

definition initShellData :: ShellData where
  "initShellData =
     \<lparr>Histories = Map.empty, CommonCmds = Map.empty, TimePatterns = Map.empty,
      Insights =
        \<lparr>TechnicalProfile =
           \<lparr>PrimaryRole = [], SecondarySkills = [], TechStack = [],
            Proficiency = Map.empty\<rparr>,
         WorkPatterns = \<lparr>PeakHours = [], CommonWorkflows = [], Productivity = Map.empty\<rparr>,
         ToolUsage = \<lparr>Editors = Map.empty, Languages = Map.empty, BuildTools = Map.empty\<rparr>\<rparr>,
      ShellConfigs = Map.empty\<rparr>"

section \<open>The host and the Go runtime\<close>

text \<open>
  Everything the analysis takes from outside the program is a field of \<open>host\<close>: the
  file system, the subprocesses, the clock, and the choices Go leaves to its runtime.
  A \<^verbatim>\<open>range\<close> loop visits the entries of a map in an order the language does not fix
  (the runtime starts each loop at a random entry), and \<^verbatim>\<open>sort.Slice\<close> is not stable:
  \<open>rangeStrings\<close>, \<open>rangeLists\<close>, \<open>rangeCounts\<close> and \<open>rangeHours\<close> give the sequence in
  which a loop visits a map's entries, \<open>sortUsage\<close> and \<open>sortHours\<close> give the slice that
  \<^verbatim>\<open>sort.Slice\<close> leaves for a \<^verbatim>\<open>less\<close> function.  \<open>goRuntime\<close> says what Go promises of
  them: a loop visits every entry once, and a sorted slice holds the same elements with
  no element before one that is less.  A host stands for one run of the program in which
  the runtime treats equal maps alike; the properties that two runs can tell apart are
  stated for two hosts.
\<close>

datatype error = OpenError | ErrTooLong

record FileInfo =
  ModTime :: time
  IsDir :: bool

record DirEntry =
  EntryName :: string
  EntryInfo :: "FileInfo option"

record host =
  UserHomeDir :: "string option"
  filepathJoin :: "string \<Rightarrow> string \<Rightarrow> string"
  openFile :: "string \<Rightarrow> string option"
  Stat :: "string \<Rightarrow> FileInfo option"
  ReadFile :: "string \<Rightarrow> string option"
  ReadDir :: "string \<Rightarrow> DirEntry list option"
  commandOutput :: "string \<Rightarrow> string option"
  LookPath :: "string \<Rightarrow> bool"
  timeNow :: "nat \<Rightarrow> time"
  rangeStrings :: "(string \<times> string) list \<Rightarrow> (string \<times> string) list"
  rangeLists :: "(string \<times> string list) list \<Rightarrow> (string \<times> string list) list"
  rangeCounts :: "string counts \<Rightarrow> string counts"
  rangeHours :: "int counts \<Rightarrow> int counts"
  sortUsage :: "(string \<times> int \<Rightarrow> string \<times> int \<Rightarrow> bool) \<Rightarrow> string counts \<Rightarrow> string counts"
  sortHours :: "(int \<times> int \<Rightarrow> int \<times> int \<Rightarrow> bool) \<Rightarrow> int counts \<Rightarrow> int counts"

definition visitsAll :: "('a list \<Rightarrow> 'a list) \<Rightarrow> bool" where
  "visitsAll f = (\<forall>xs. mset (f xs) = mset xs)"

definition sortsBy :: "('a \<Rightarrow> 'a \<Rightarrow> bool) \<Rightarrow> ('a list \<Rightarrow> 'a list) \<Rightarrow> bool" where
  "sortsBy lt f =
     (\<forall>xs. mset (f xs) = mset xs \<and> sorted_wrt (\<lambda>a b. \<not> lt b a) (f xs))"

text \<open>The \<^verbatim>\<open>less\<close> function of both calls of \<^verbatim>\<open>sort.Slice\<close>: the greater count first.\<close>

definition moreCount :: "'k \<times> int \<Rightarrow> 'k \<times> int \<Rightarrow> bool" where
  "moreCount a b = (snd a > snd b)"

definition goRuntime :: "host \<Rightarrow> bool" where
  "goRuntime h =
     (visitsAll (rangeStrings h) \<and> visitsAll (rangeLists h) \<and> visitsAll (rangeCounts h)
      \<and> visitsAll (rangeHours h) \<and> sortsBy moreCount (sortUsage h moreCount)
      \<and> sortsBy moreCount (sortHours h moreCount))"

subsection \<open>Counters\<close>

text \<open>\<open>incr k m\<close> is \<^verbatim>\<open>m[k]++\<close>, and \<open>valueAt m k\<close> is \<^verbatim>\<open>m[k]\<close>, 0 for a key that is not in
  the map.\<close>

definition incr :: "'k \<Rightarrow> 'k counts \<Rightarrow> 'k counts" where
  "incr k m =
     (case map_of m k of
        None \<Rightarrow> m @ [(k, 1)]
      | Some v \<Rightarrow> map (\<lambda>(k', v'). if k' = k then (k', v' + 1) else (k', v')) m)"

definition valueAt :: "'k counts \<Rightarrow> 'k \<Rightarrow> int" where
  "valueAt m k = (case map_of m k of None \<Rightarrow> 0 | Some v \<Rightarrow> v)"

section \<open>Reading a history file\<close>

definition cleanHistoryLine :: "string \<Rightarrow> string" where
  "cleanHistoryLine line =
     (let parts = Fields line
      in if length parts > 0 then parts ! (length parts - 1) else [])"

definition categoryPatterns :: "(string \<times> string list) list" where
  "categoryPatterns =
     [(''development'', [''git'', ''docker'', ''npm'', ''go'', ''python'']),
      (''system'', [''sudo'', ''systemctl'', ''ps'', ''top'']),
      (''file'', [''ls'', ''cd'', ''cp'', ''mv'', ''rm''])]"

text \<open>The inner loop of \<open>categorizeCommand\<close> appends the category at the first prefix that
  matches and breaks.\<close>

definition categorizeCommand :: "host \<Rightarrow> string \<Rightarrow> string list" where
  "categorizeCommand h cmd =
     map fst (filter (\<lambda>(category, patterns). list_ex (HasPrefix cmd) patterns)
       (rangeLists h categoryPatterns))"

text \<open>The loop of \<open>readHistory\<close>; \<open>i\<close> numbers the lines, and \<open>timeNow h i\<close> is what
  \<^verbatim>\<open>time.Now()\<close> returns at line \<open>i\<close>.\<close>

fun historyLoop :: "host \<Rightarrow> nat \<Rightarrow> string list \<Rightarrow> CommandEntry list" where
  "historyLoop h i [] = []"
| "historyLoop h i (line # ls) =
     (let cmd = cleanHistoryLine line
      in (if cmd \<noteq> []
          then [\<lparr>Command = cmd, Timestamp = timeNow h i, Count = 0,
                 Categories = categorizeCommand h cmd\<rparr>]
          else []) @ historyLoop h (Suc i) ls)"

text \<open>\<open>readHistory\<close> returns the entries and the error; the error is \<open>None\<close> for \<^verbatim>\<open>nil\<close>.\<close>

definition readHistory :: "host \<Rightarrow> string \<Rightarrow> CommandEntry list \<times> error option" where
  "readHistory h path =
     (case openFile h path of
        None \<Rightarrow> ([], Some OpenError)
      | Some content \<Rightarrow>
          (historyLoop h 0 (fst (scanLines content)),
           if snd (scanLines content) then Some ErrTooLong else None))"

section \<open>The analysis of one history\<close>

subsection \<open>Installed languages and tools\<close>

definition checkToolInstalled :: "host \<Rightarrow> string \<Rightarrow> bool" where
  "checkToolInstalled h tool = LookPath h tool"

definition languages :: "(string \<times> string) list" where
  "languages =
     [(''python'', ''python --version''), (''python3'', ''python3 --version''),
      (''node'', ''node --version''), (''go'', ''go version''), (''java'', ''java -version''),
      (''ruby'', ''ruby --version''), (''php'', ''php --version''),
      (''rust'', ''rustc --version''), (''perl'', ''perl --version''),
      (''scala'', ''scala -version''), (''kotlin'', ''kotlin -version''),
      (''swift'', ''swift --version''), (''r'', ''R --version''),
      (''julia'', ''julia --version''), (''haskell'', ''ghc --version''),
      (''elixir'', ''elixir --version''), (''erlang'', ''erl -version''),
      (''clang'', ''clang --version''), (''gcc'', ''gcc --version''),
      (''dotnet'', ''dotnet --version''), (''lua'', ''lua -v''),
      (''ocaml'', ''ocaml -version''), (''dart'', ''dart --version''),
      (''zig'', ''zig version''), (''nim'', ''nim --version''),
      (''maven'', ''mvn --version''), (''gradle'', ''gradle --version''),
      (''npm'', ''npm --version''), (''yarn'', ''yarn --version''),
      (''pnpm'', ''pnpm --version''), (''pip'', ''pip --version''),
      (''cargo'', ''cargo --version''), (''composer'', ''composer --version''),
      (''bundler'', ''bundle --version''),
      (''docker'', ''docker --version''), (''kubectl'', ''kubectl version --client''),
      (''terraform'', ''terraform version''), (''ansible'', ''ansible --version''),
      (''vagrant'', ''vagrant --version''), (''helm'', ''helm version''),
      (''aws'', ''aws --version''), (''gcloud'', ''gcloud --version''),
      (''azure'', ''az --version''),
      (''git'', ''git --version''), (''svn'', ''svn --version''),
      (''mercurial'', ''hg --version''),
      (''mysql'', ''mysql --version''), (''psql'', ''psql --version''),
      (''mongodb'', ''mongod --version''), (''redis'', ''redis-cli --version''),
      (''nginx'', ''nginx -v''), (''apache2'', ''apache2 -v''),
      (''curl'', ''curl --version''), (''wget'', ''wget --version''),
      (''vim'', ''vim --version''), (''nvim'', ''nvim --version''),
      (''emacs'', ''emacs --version''), (''code'', ''code --version''),
      (''zsh'', ''zsh --version''), (''bash'', ''bash --version''),
      (''fish'', ''fish --version''), (''tmux'', ''tmux -V'')]"

text \<open>
  \<open>getInstalledLanguages\<close> runs every probe of the table, keeps the tools whose probe
  succeeded, puts them in a slice with the count 0 each, sorts the slice by count and
  keeps its first ten.  \<open>commandOutput h cmd\<close> is the output of
  \<^verbatim>\<open>exec.Command("sh", "-c", cmd).Output()\<close> when it returns no error.
\<close>

definition getInstalledLanguages :: "host \<Rightarrow> (string \<times> string) list" where
  "getInstalledLanguages h =
     (let installed =
            concat (map (\<lambda>(lang, cmd). case commandOutput h cmd of
                                          None \<Rightarrow> [] | Some out \<Rightarrow> [(lang, out)])
                     (rangeStrings h languages));
          usageList = map (\<lambda>(name, out). (name, 0 :: int)) (rangeStrings h installed);
          sorted = sortUsage h moreCount usageList
      in map (\<lambda>(name, count).
                (name, case map_of installed name of None \<Rightarrow> [] | Some out \<Rightarrow> out))
           (take 10 sorted))"

definition managers :: "(string \<times> string) list" where
  "managers =
     [(''python'', ''pip''), (''node'', ''npm''), (''go'', ''go get''), (''rust'', ''cargo''),
      (''ruby'', ''gem''), (''php'', ''composer'')]"

text \<open>\<open>getPackageManager\<close> returns \<^verbatim>\<open>managers[lang]\<close>: the empty string for a language that
  is not a key of the table.\<close>

definition getPackageManager :: "string \<Rightarrow> string" where
  "getPackageManager lang = (case map_of managers lang of None \<Rightarrow> [] | Some m \<Rightarrow> m)"

definition tools :: "string list" where
  "tools = [''git'', ''docker'', ''kubectl'', ''terraform'', ''ansible'', ''make'']"

subsection \<open>Workflow patterns\<close>

definition patternMap :: "(string \<times> regexp) list" where
  "patternMap =
     [(''git_workflow'',
         Cat (Lit ''git '') (Alt (Lit ''commit'') (Alt (Lit ''push'')
           (Alt (Lit ''pull'') (Lit ''merge''))))),
      (''build'', Alt (Lit ''make'') (Alt (Lit ''build'') (Lit ''compile''))),
      (''deploy'', Alt (Lit ''deploy'') (Alt (Lit ''kubectl'') (Lit ''docker''))),
      (''test'', Alt (Lit ''test'') (Alt (Lit ''spec'') (Lit ''pytest'')))]"

text \<open>The loop of \<open>analyzeCommandPattern\<close> only counts, each expression under its own key:
  the order in which it visits \<open>patternMap\<close> does not show in any count.\<close>

definition analyzeCommandPattern :: "string \<Rightarrow> string counts \<Rightarrow> string counts" where
  "analyzeCommandPattern cmd patterns =
     fold (\<lambda>(pattern, regex) ps. if MatchString regex cmd then incr pattern ps else ps)
       patternMap patterns"

subsection \<open>The loop over the commands\<close>

text \<open>The four maps that \<open>analyzeCommands\<close> fills while it goes through the entries.\<close>

record tally =
  langUsage :: "string counts"
  toolUsage :: "string counts"
  timeOfDay :: "int counts"
  commandPatterns :: "string counts"

text \<open>The test of the language loop: the command contains the name of the language or
  what \<open>getPackageManager\<close> returns for it.\<close>

definition mentions :: "string \<Rightarrow> string \<Rightarrow> bool" where
  "mentions cmd lang = (Contains cmd lang \<or> Contains cmd (getPackageManager lang))"

definition countLanguages ::
  "host \<Rightarrow> (string \<times> string) list \<Rightarrow> string \<Rightarrow> string counts \<Rightarrow> string counts" where
  "countLanguages h installedLangs cmd usage =
     fold (\<lambda>(lang, out) u. if mentions cmd lang then incr lang u else u)
       (rangeStrings h installedLangs) usage"

definition countTools :: "host \<Rightarrow> string \<Rightarrow> string counts \<Rightarrow> string counts" where
  "countTools h cmd usage =
     fold (\<lambda>tool u. if HasPrefix cmd tool \<and> checkToolInstalled h tool then incr tool u else u)
       tools usage"

definition analyzeEntry ::
  "host \<Rightarrow> (string \<times> string) list \<Rightarrow> CommandEntry \<Rightarrow> tally \<Rightarrow> tally" where
  "analyzeEntry h installedLangs entry t =
     \<lparr>langUsage = countLanguages h installedLangs (Command entry) (langUsage t),
      toolUsage = countTools h (Command entry) (toolUsage t),
      timeOfDay = incr (Hour (Timestamp entry)) (timeOfDay t),
      commandPatterns = analyzeCommandPattern (Command entry) (commandPatterns t)\<rparr>"

definition tallyCommands ::
  "host \<Rightarrow> (string \<times> string) list \<Rightarrow> CommandEntry list \<Rightarrow> tally" where
  "tallyCommands h installedLangs entries =
     fold (analyzeEntry h installedLangs) entries
       \<lparr>langUsage = [], toolUsage = [], timeOfDay = [], commandPatterns = []\<rparr>"

subsection \<open>The summaries\<close>

fun mostUsedLoop :: "string counts \<Rightarrow> string \<times> int \<Rightarrow> string \<times> int" where
  "mostUsedLoop [] best = best"
| "mostUsedLoop ((k, v) # kvs) (maxKey, maxVal) =
     mostUsedLoop kvs (if v > maxVal then (k, v) else (maxKey, maxVal))"

definition getMostUsed :: "host \<Rightarrow> string counts \<Rightarrow> string \<times> bool" where
  "getMostUsed h usage =
     (let best = mostUsedLoop (rangeCounts h usage) ([], 0) in (fst best, snd best > 0))"

definition getPeakHours :: "host \<Rightarrow> int counts \<Rightarrow> int list" where
  "getPeakHours h hourCounts =
     (let hours = rangeHours h hourCounts;
          sorted = sortHours h moreCount hours
      in map fst (take 3 sorted))"

definition calculateProductivityMetrics ::
  "CommandEntry list \<Rightarrow> string counts \<Rightarrow> (string \<rightharpoonup> float64)" where
  "calculateProductivityMetrics entries patterns =
     (let totalCommands = int (length entries)
      in if totalCommands = 0 then Map.empty
         else
           let uniqueCommands = remdups (map Command entries);
               workflowScore =
                 real_of_int (valueAt patterns ''git_workflow'' + valueAt patterns ''build''
                   + valueAt patterns ''deploy'' + valueAt patterns ''test'')
                 / real_of_int totalCommands
           in [''Command Variety'' \<mapsto>
                 real_of_int (int (length uniqueCommands)) / real_of_int totalCommands,
               ''Workflow Complexity'' \<mapsto> workflowScore])"

text \<open>Each of the two loops that fill \<open>Proficiency\<close> writes one quotient per key.\<close>

definition writeProficiency ::
  "int \<Rightarrow> string counts \<Rightarrow> (string \<rightharpoonup> float64) \<Rightarrow> (string \<rightharpoonup> float64)" where
  "writeProficiency totalCommands visited proficiency =
     fold (\<lambda>(key, count) p. p(key \<mapsto> real_of_int count / real_of_int totalCommands))
       visited proficiency"

definition analyzeCommands :: "host \<Rightarrow> CommandEntry list \<Rightarrow> ShellData \<Rightarrow> ShellData" where
  "analyzeCommands h entries data =
     (let installedLangs = getInstalledLanguages h;
          t = tallyCommands h installedLangs entries;
          techProfile = TechnicalProfile (Insights data);
          primary = getMostUsed h (langUsage t);
          techProfile1 =
            (if snd primary
             then techProfile\<lparr>PrimaryRole := Title (fst primary) @ '' Developer''\<rparr>
             else techProfile);
          techProfile2 =
            techProfile1\<lparr>TechStack :=
              filter (\<lambda>lang. valueAt (langUsage t) lang > 0)
                (map fst (rangeStrings h installedLangs))\<rparr>;
          totalCommands = int (length entries);
          techProfile3 =
            (if totalCommands > 0
             then techProfile2\<lparr>Proficiency :=
                    writeProficiency totalCommands (rangeCounts h (toolUsage t))
                      (writeProficiency totalCommands (rangeCounts h (langUsage t))
                        (Proficiency techProfile2))\<rparr>
             else techProfile2);
          patterns =
            (WorkPatterns (Insights data))
              \<lparr>PeakHours := getPeakHours h (timeOfDay t),
               Productivity := calculateProductivityMetrics entries (commandPatterns t)\<rparr>
      in data\<lparr>Insights :=
           (Insights data)\<lparr>TechnicalProfile := techProfile3, WorkPatterns := patterns\<rparr>\<rparr>)"

section \<open>Shell configuration\<close>

definition expandPath :: "host \<Rightarrow> string \<Rightarrow> string" where
  "expandPath h path =
     (if HasPrefix path ''~/''
      then (case UserHomeDir h of None \<Rightarrow> path | Some home \<Rightarrow> filepathJoin h home (drop 2 path))
      else path)"

text \<open>\<^verbatim>\<open>filepath.Base\<close>: the last element of the path, after its trailing slashes are
  removed.\<close>

definition Base :: "string \<Rightarrow> string" where
  "Base path =
     (if path = [] then ''.''
      else let stripped = rev (dropWhile (\<lambda>c. c = CHR ''/'') (rev path));
               element = rev (takeWhile (\<lambda>c. c \<noteq> CHR ''/'') (rev stripped))
           in if element = [] then ''/'' else element)"

definition quotes :: string where
  "quotes = [CHR 0x27, CHR 0x22]"

text \<open>The body of the loop of \<open>parseShellConfig\<close>: the two \<^verbatim>\<open>if\<close> statements, one after the
  other, on one line of the file.\<close>

definition parseAliasLine :: "string \<Rightarrow> ShellConfig \<Rightarrow> ShellConfig" where
  "parseAliasLine line config =
     (if HasPrefix line ''alias ''
      then let parts = SplitN2 (TrimPrefix line ''alias '') (CHR ''='')
           in if length parts = 2
              then config\<lparr>Aliases := (Aliases config)
                     (TrimSpace (parts ! 0) \<mapsto> Trim (TrimSpace (parts ! 1)) quotes)\<rparr>
              else config
      else config)"

definition parseExportLine :: "string \<Rightarrow> ShellConfig \<Rightarrow> ShellConfig" where
  "parseExportLine line config =
     (if HasPrefix line ''export ''
      then let parts = SplitN2 (TrimPrefix line ''export '') (CHR ''='')
           in if length parts = 2
              then config\<lparr>Environment := (Environment config)
                     (TrimSpace (parts ! 0) \<mapsto> Trim (TrimSpace (parts ! 1)) quotes)\<rparr>
              else config
      else config)"

definition parseConfigLine :: "string \<Rightarrow> ShellConfig \<Rightarrow> ShellConfig" where
  "parseConfigLine line config = parseExportLine line (parseAliasLine line config)"

text \<open>\<open>parseShellConfig\<close> goes through the lines the scanner delivers and never asks the
  scanner for its error.\<close>

definition parseShellConfig :: "string \<Rightarrow> ShellConfig \<Rightarrow> ShellConfig" where
  "parseShellConfig content config = fold parseConfigLine (fst (scanLines content)) config"

subsection \<open>Plugins\<close>

definition detectDirs :: "host \<Rightarrow> string list \<Rightarrow> ShellConfig \<Rightarrow> ShellConfig" where
  "detectDirs h dirs config =
     fold (\<lambda>manager c.
             case Stat h (expandPath h manager) of
               None \<Rightarrow> c
             | Some info \<Rightarrow>
                 if IsDir info
                 then c\<lparr>Plugins := Plugins c @
                        [\<lparr>Name = Base manager, Source = expandPath h manager,
                          LastUpdated = ModTime info\<rparr>]\<rparr>
                 else c)
       dirs config"

definition detectZshPlugins :: "host \<Rightarrow> ShellConfig \<Rightarrow> ShellConfig" where
  "detectZshPlugins h config =
     detectDirs h [''~/.oh-my-zsh'', ''~/.antigen'', ''~/.zinit'', ''~/.zplug''] config"

definition detectBashPlugins :: "host \<Rightarrow> ShellConfig \<Rightarrow> ShellConfig" where
  "detectBashPlugins h config =
     detectDirs h [''~/.bash_it'', ''~/.local/share/bash-completion''] config"

text \<open>
  \<open>detectFishPlugins\<close> drops the error of \<^verbatim>\<open>file.Info()\<close> and calls \<^verbatim>\<open>ModTime\<close> on the
  result: where \<^verbatim>\<open>Info\<close> fails (the file is gone since the directory was read) the result is
  \<^verbatim>\<open>nil\<close> and the call panics.  \<open>None\<close> is the panic.
\<close>

fun fishLoop :: "host \<Rightarrow> string \<Rightarrow> DirEntry list \<Rightarrow> ShellConfig \<Rightarrow> ShellConfig option" where
  "fishLoop h dir [] config = Some config"
| "fishLoop h dir (file # files) config =
     (if HasSuffix (EntryName file) ''.fish''
      then (case EntryInfo file of
              None \<Rightarrow> None
            | Some info \<Rightarrow>
                fishLoop h dir files
                  (config\<lparr>Plugins := Plugins config @
                     [\<lparr>Name = TrimSuffix (EntryName file) ''.fish'',
                       Source = filepathJoin h dir (EntryName file),
                       LastUpdated = ModTime info\<rparr>]\<rparr>))
      else fishLoop h dir files config)"

definition detectFishPlugins :: "host \<Rightarrow> ShellConfig \<Rightarrow> ShellConfig option" where
  "detectFishPlugins h config =
     (let fishPluginPath = expandPath h ''~/.config/fish/conf.d''
      in case ReadDir h fishPluginPath of
           None \<Rightarrow> Some config
         | Some files \<Rightarrow> fishLoop h fishPluginPath files config)"

definition detectPlugins :: "host \<Rightarrow> string \<Rightarrow> ShellConfig \<Rightarrow> ShellConfig option" where
  "detectPlugins h shell config =
     (if shell = ''zsh'' then Some (detectZshPlugins h config)
      else if shell = ''fish'' then detectFishPlugins h config
      else if shell = ''bash'' then Some (detectBashPlugins h config)
      else Some config)"

subsection \<open>The configuration files of a shell\<close>

definition configPaths :: "(string \<times> string list) list" where
  "configPaths =
     [(''bash'', [''~/.bashrc'', ''~/.bash_profile'', ''~/.bash_aliases'']),
      (''zsh'', [''~/.zshrc'', ''~/.zsh_plugins'', ''~/.zprofile'']),
      (''fish'', [''~/.config/fish/config.fish'', ''~/.config/fish/functions'',
                 ''~/.config/fish/conf.d''])]"

text \<open>The body of the loop over the paths: a path that \<^verbatim>\<open>os.Stat\<close> finds is recorded with
  its content (empty when \<^verbatim>\<open>os.ReadFile\<close> fails, as it does on a directory) and parsed.\<close>

definition readConfigFile :: "host \<Rightarrow> string \<Rightarrow> ShellConfig \<Rightarrow> ShellConfig" where
  "readConfigFile h paths config =
     (case Stat h (expandPath h paths) of
        None \<Rightarrow> config
      | Some info \<Rightarrow>
          let content = (case ReadFile h (expandPath h paths) of None \<Rightarrow> [] | Some c \<Rightarrow> c)
          in parseShellConfig content
               (config\<lparr>ConfigFiles := (ConfigFiles config)
                  (paths \<mapsto> \<lparr>Path = expandPath h paths, Modified = ModTime info,
                              Content = content\<rparr>)\<rparr>))"

definition newShellConfig :: ShellConfig where
  "newShellConfig =
     \<lparr>ConfigFiles = Map.empty, Plugins = [], Aliases = Map.empty, Environment = Map.empty\<rparr>"

definition analyzeShellConfigs :: "host \<Rightarrow> string \<Rightarrow> ShellConfig option" where
  "analyzeShellConfigs h shell =
     detectPlugins h shell
       (fold (readConfigFile h)
          (case map_of configPaths shell of None \<Rightarrow> [] | Some ps \<Rightarrow> ps)
          newShellConfig)"

section \<open>The analysis of all shells\<close>

definition shellPaths :: "(string \<times> string) list" where
  "shellPaths =
     [(''bash'', ''~/.bash_history''), (''zsh'', ''~/.zsh_history''),
      (''fish'', ''~/.local/share/fish/fish_history'')]"

text \<open>The body of the loop of \<open>analyzeShells\<close> for one shell, and the loop.  A shell whose
  history cannot be read leaves the data as it is.\<close>

definition analyzeShell :: "host \<Rightarrow> string \<Rightarrow> string \<Rightarrow> ShellData \<Rightarrow> ShellData option" where
  "analyzeShell h shell path data =
     (let history = readHistory h (expandPath h path)
      in if snd history = None
         then (let data1 = analyzeCommands h (fst history)
                             (data\<lparr>Histories := (Histories data)(shell \<mapsto> fst history)\<rparr>)
               in case analyzeShellConfigs h shell of
                    None \<Rightarrow> None
                  | Some config \<Rightarrow>
                      Some (data1\<lparr>ShellConfigs := (ShellConfigs data1)(shell \<mapsto> config)\<rparr>))
         else Some data)"

fun shellsLoop :: "host \<Rightarrow> (string \<times> string) list \<Rightarrow> ShellData \<Rightarrow> ShellData option" where
  "shellsLoop h [] data = Some data"
| "shellsLoop h ((shell, path) # rest) data =
     (case analyzeShell h shell path data of
        None \<Rightarrow> None
      | Some data' \<Rightarrow> shellsLoop h rest data')"

definition analyzeShells :: "host \<Rightarrow> ShellData option" where
  "analyzeShells h = shellsLoop h (rangeStrings h shellPaths) initShellData"

section \<open>A host to run the program on\<close>

text \<open>
  The insertion sort that \<^verbatim>\<open>sort.Slice\<close> runs on a short slice: each element moves left
  while it is less than its left neighbour.  The first argument of \<open>insertLeft\<close> is the
  sorted part, last element first.
\<close>

fun insertLeft :: "('a \<Rightarrow> 'a \<Rightarrow> bool) \<Rightarrow> 'a \<Rightarrow> 'a list \<Rightarrow> 'a list" where
  "insertLeft lt x [] = [x]"
| "insertLeft lt x (y # ys) = (if lt x y then y # insertLeft lt x ys else x # y # ys)"

definition insertionSort :: "('a \<Rightarrow> 'a \<Rightarrow> bool) \<Rightarrow> 'a list \<Rightarrow> 'a list" where
  "insertionSort lt xs = rev (fold (insertLeft lt) xs [])"

text \<open>
  \<open>plainHost\<close> has a home directory with a bash history of ten commands, four of them
  with \<^verbatim>\<open>python\<close> or \<^verbatim>\<open>pip\<close>, and a \<^verbatim>\<open>.bashrc\<close>; the probes of \<^verbatim>\<open>python\<close> and
  \<^verbatim>\<open>java\<close> succeed and \<^verbatim>\<open>git\<close> is on the path; every
  \<^verbatim>\<open>range\<close> loop visits a map in the order in which its entries were written, and the
  clock stands at 14 hours.
\<close>

definition plainHistory :: string where
  "plainHistory =
     ''python\<newline>ls\<newline>python3\<newline>cd\<newline>pwd\<newline>mypython\<newline>cat\<newline>echo\<newline>pip\<newline>vi\<newline>''"

definition plainBashrc :: string where
  "plainBashrc = ''alias ll='ls -la'' @ [CHR 0x27] @ ''\<newline>export PATH=$PATH:/x\<newline>''"

definition plainHost :: host where
  "plainHost =
     \<lparr>UserHomeDir = Some ''/home/u'',
      filepathJoin = (\<lambda>dir name. dir @ ''/'' @ name),
      openFile = (\<lambda>p. if p = ''/home/u/.bash_history'' then Some plainHistory else None),
      Stat = (\<lambda>p. if p = ''/home/u/.bashrc''
                   then Some \<lparr>ModTime = \<lparr>Hour = 9\<rparr>, IsDir = False\<rparr> else None),
      ReadFile = (\<lambda>p. if p = ''/home/u/.bashrc'' then Some plainBashrc else None),
      ReadDir = (\<lambda>p. None),
      commandOutput = (\<lambda>cmd. if cmd = ''python --version'' then Some ''Python 3''
                              else if cmd = ''java -version'' then Some ''java 21''
                              else None),
      LookPath = (\<lambda>tool. tool = ''git''),
      timeNow = (\<lambda>i. \<lparr>Hour = 14\<rparr>),
      rangeStrings = (\<lambda>m. m), rangeLists = (\<lambda>m. m), rangeCounts = (\<lambda>m. m),
      rangeHours = (\<lambda>m. m),
      sortUsage = insertionSort, sortHours = insertionSort\<rparr>"

text \<open>\<open>backwardHost\<close> is the same host with a runtime that visits the counters from the
  last entry written to the first.\<close>

definition backwardHost :: host where
  "backwardHost = plainHost\<lparr>rangeCounts := rev, rangeHours := rev\<rparr>"

definition plainEntries :: "CommandEntry list" where
  "plainEntries = fst (readHistory plainHost ''/home/u/.bash_history'')"

section \<open>What the properties refer to\<close>

text \<open>
  The number of entries that pass the test of the language loop for a language, and the
  number of entries that pass the test of the tool loop for a tool: the values that the
  properties below compare the counters with.
\<close>

definition languageCount :: "CommandEntry list \<Rightarrow> string \<Rightarrow> int" where
  "languageCount entries lang = int (length (filter (\<lambda>e. mentions (Command e) lang) entries))"

definition toolCount :: "host \<Rightarrow> CommandEntry list \<Rightarrow> string \<Rightarrow> int" where
  "toolCount h entries tool =
     int (length (filter (\<lambda>e. HasPrefix (Command e) tool \<and> checkToolInstalled h tool) entries))"

text \<open>
  What a line of a configuration file assigns, for the properties of the parser: the name
  and the value that the body of the loop reads from a line that starts with the keyword
  and has a \<^verbatim>\<open>=\<close> after it, and \<open>None\<close> for every other line.
\<close>

definition assignment :: "string \<Rightarrow> string \<Rightarrow> (string \<times> string) option" where
  "assignment keyword line =
     (if HasPrefix line keyword \<and> CHR ''='' \<in> set (TrimPrefix line keyword)
      then Some (TrimSpace (takeWhile (\<lambda>c. c \<noteq> CHR ''='') (TrimPrefix line keyword)),
                 Trim (TrimSpace (tl (dropWhile (\<lambda>c. c \<noteq> CHR ''='') (TrimPrefix line keyword))))
                   quotes)
      else None)"

text \<open>The history that the loop of \<open>analyzeShells\<close> stores for a path: none when
  \<open>readHistory\<close> returns an error.\<close>

definition historyOf :: "host \<Rightarrow> string \<Rightarrow> CommandEntry list option" where
  "historyOf h path =
     (let history = readHistory h (expandPath h path)
      in if snd history = None then Some (fst history) else None)"

section \<open>More files and hosts\<close>

text \<open>A configuration file with a line of 64 KiB between two definitions of one name.\<close>

definition longLine :: string where
  "longLine = replicate MaxScanTokenSize (CHR ''x'')"


text \<open>\<open>longHost\<close> is \<open>plainHost\<close> with a history of \<^verbatim>\<open>bash\<close> that is one line of 64 KiB.\<close>

definition longHost :: host where
  "longHost =
     plainHost\<lparr>openFile :=
       (\<lambda>p. if p = ''/home/u/.bash_history'' then Some longLine else None)\<rparr>"

text \<open>\<open>twoHost\<close> is \<open>plainHost\<close> with a history of \<^verbatim>\<open>zsh\<close> as well, of one command.\<close>

definition twoHost :: host where
  "twoHost =
     plainHost\<lparr>openFile :=
       (\<lambda>p. if p = ''/home/u/.bash_history'' then Some plainHistory
            else if p = ''/home/u/.zsh_history'' then Some ''ls\<newline>''
            else None)\<rparr>"

definition zshEntries :: "CommandEntry list" where
  "zshEntries = fst (readHistory twoHost ''/home/u/.zsh_history'')"

section \<open>Properties of the history reader\<close>

lemma runes_nonempty: "r \<in> set (runes s) \<Longrightarrow> r \<noteq> []"
  by (induction s rule: runes.induct) (auto simp: Let_def)

lemma concat_runes: "concat (runes s) = s"
  by (induction s rule: runes.induct) (simp_all add: Let_def del: take_Suc_Cons drop_Suc_Cons)

lemma fieldsFrom_nonspace:
  "\<forall>r\<in>set tok. \<not> IsSpace r \<Longrightarrow> fieldsFrom (tok @ rs) cur = fieldsFrom rs (cur @ concat tok)"
  by (induction tok arbitrary: cur) simp_all

lemma fieldsFrom_spaces:
  "\<forall>r\<in>set sp. IsSpace r \<Longrightarrow> fieldsFrom sp cur = (if cur = [] then [] else [cur])"
  by (induction sp arbitrary: cur) simp_all

lemma fieldsFrom_cut:
  "IsSpace r \<Longrightarrow> fieldsFrom (xs @ r # rs) cur = fieldsFrom (xs @ [r]) cur @ fieldsFrom rs []"
  by (induction xs arbitrary: cur) simp_all

lemma fieldsFrom_fields_nonempty:
  "\<forall>r\<in>set rs. r \<noteq> [] \<Longrightarrow> f \<in> set (fieldsFrom rs cur) \<Longrightarrow> f \<noteq> []"
  by (induction rs arbitrary: cur) (auto split: if_splits)

lemma fieldsFrom_empty_iff:
  "\<forall>r\<in>set rs. r \<noteq> [] \<Longrightarrow> (fieldsFrom rs cur = []) = (cur = [] \<and> (\<forall>r\<in>set rs. IsSpace r))"
  by (induction rs arbitrary: cur) auto

lemma Fields_empty_iff: "(Fields line = []) = (\<forall>r\<in>set (runes line). IsSpace r)"
  unfolding Fields_def using fieldsFrom_empty_iff [of "runes line" "[]"] runes_nonempty by blast

lemma cleanHistoryLine_last:
  "cleanHistoryLine line = (if Fields line = [] then [] else last (Fields line))"
  by (simp add: cleanHistoryLine_def Let_def last_conv_nth)

lemma cleanHistoryLine_empty_iff: "(cleanHistoryLine line = []) = (Fields line = [])"
proof (cases "Fields line = []")
  case True
  then show ?thesis by (simp add: cleanHistoryLine_last)
next
  case False
  then have "last (Fields line) \<in> set (Fields line)" by simp
  then have "last (Fields line) \<noteq> []"
    unfolding Fields_def using fieldsFrom_fields_nonempty [of "runes line"] runes_nonempty by blast
  with False show ?thesis by (simp add: cleanHistoryLine_last)
qed

lemma Fields_decomposed:
  assumes "runes line = pre @ tok @ post" and "tok \<noteq> []"
    and "\<forall>r\<in>set tok. \<not> IsSpace r" and "\<forall>r\<in>set post. IsSpace r"
    and "pre = [] \<or> IsSpace (last pre)"
  shows "Fields line \<noteq> [] \<and> last (Fields line) = concat tok"
proof -
  have ne: "concat tok \<noteq> []"
  proof -
    from assms(2) obtain r where "r \<in> set tok" by (cases tok) auto
    moreover from this assms(1) have "r \<noteq> []" using runes_nonempty [of r line] by simp
    ultimately show ?thesis by auto
  qed
  have tail: "fieldsFrom (tok @ post) [] = [concat tok]"
    using assms(3,4) ne by (simp add: fieldsFrom_nonspace fieldsFrom_spaces)
  show ?thesis
  proof (cases "pre = []")
    case True
    with assms(1) tail show ?thesis by (simp add: Fields_def)
  next
    case False
    then obtain ys r where pre: "pre = ys @ [r]" by (metis rev_exhaust)
    with assms(5) have "IsSpace r" by simp
    then have "fieldsFrom (ys @ r # (tok @ post)) [] = fieldsFrom (ys @ [r]) [] @ fieldsFrom (tok @ post) []"
      by (rule fieldsFrom_cut)
    with assms(1) pre tail show ?thesis by (simp add: Fields_def)
  qed
qed

lemma historyLoop_commands:
  "map Command (historyLoop h i ls) = filter (\<lambda>c. c \<noteq> []) (map cleanHistoryLine ls)"
  by (induction ls arbitrary: i) (simp_all add: Let_def)

text \<open>
  C3.  \<open>cleanHistoryLine\<close> returns the last field of a line that has a field, and that
  field is not empty.  Spelled out on the characters of the line: when the line reads
  \<open>pre\<close>, \<open>tok\<close>, \<open>post\<close>, where \<open>tok\<close> is a non-empty run without white space, \<open>post\<close>
  is white space only and \<open>pre\<close> is empty or ends in white space, the result is \<open>tok\<close>.  A
  line of white space only (the empty line included) is cleaned to the empty string.  The
  loop of \<open>readHistory\<close> makes one entry for each line that is not cleaned to the empty
  string, in the order of the lines, and no entry for any other line.
\<close>

theorem cleanHistoryLine_last_token:
  "(Fields line \<noteq> [] \<longrightarrow> cleanHistoryLine line = last (Fields line) \<and> cleanHistoryLine line \<noteq> [])
   \<and> (runes line = pre @ tok @ post \<and> tok \<noteq> [] \<and> (\<forall>r\<in>set tok. \<not> IsSpace r)
        \<and> (\<forall>r\<in>set post. IsSpace r) \<and> (pre = [] \<or> IsSpace (last pre))
      \<longrightarrow> cleanHistoryLine line = concat tok)
   \<and> ((\<forall>r\<in>set (runes line). IsSpace r) \<longrightarrow> cleanHistoryLine line = [])
   \<and> map Command (historyLoop h i ls) = filter (\<lambda>c. c \<noteq> []) (map cleanHistoryLine ls)"
  using Fields_decomposed [of line pre tok post] cleanHistoryLine_empty_iff [of line]
    Fields_empty_iff [of line] historyLoop_commands [of h i ls]
  by (auto simp: cleanHistoryLine_last)

theorem cleanHistoryLine_last_token_witness:
  "Fields ''12  ls '' \<noteq> [] \<and> cleanHistoryLine ''12  ls '' = ''ls''
   \<and> runes ''12  ls '' = [''1'', ''2'', '' '', '' ''] @ [''l'', ''s''] @ ['' '']
   \<and> IsSpace '' '' \<and> \<not> IsSpace ''l'' \<and> \<not> IsSpace ''s''
   \<and> cleanHistoryLine ''  '' = []
   \<and> map Command (historyLoop plainHost 0 [''12  ls '', ''  '']) = [''ls'']"
proof -
  have r: "runes ''12  ls '' = [''1'', ''2'', '' '', '' ''] @ [''l'', ''s''] @ ['' '']"
    by (simp add: spaceWidth_def spaceSeqs_def HasPrefix_def)
  have r': "runes ''  '' = ['' '', '' '']"
    by (simp add: spaceWidth_def spaceSeqs_def HasPrefix_def)
  have sp: "IsSpace '' ''" "\<not> IsSpace ''l''" "\<not> IsSpace ''s''"
    by (simp_all add: IsSpace_def spaceSeqs_def)
  have a1: "cleanHistoryLine ''12  ls '' = ''ls''"
    using cleanHistoryLine_last_token
      [of "''12  ls ''" "[''1'', ''2'', '' '', '' '']" "[''l'', ''s'']" "['' '']" plainHost 0 "[]"]
      r sp by (simp del: runes.simps)
  have a2: "Fields ''12  ls '' \<noteq> []"
    using a1 cleanHistoryLine_empty_iff [of "''12  ls ''"] by simp
  have b: "cleanHistoryLine ''  '' = []"
    using cleanHistoryLine_last_token [of "''  ''" "[]" "[]" "[]" plainHost 0 "[]"] r' sp
    by (simp del: runes.simps)
  have c: "map Command (historyLoop plainHost 0 [''12  ls '', ''  '']) = [''ls'']"
    using cleanHistoryLine_last_token [of "[]" "[]" "[]" "[]" plainHost 0 "[''12  ls '', ''  '']"] a1 b
    by (simp del: runes.simps)
  from a1 a2 b c r sp show ?thesis by (simp del: runes.simps)
qed

section \<open>Properties of the runtime and of the classifier\<close>

lemma mset_insertLeft: "mset (insertLeft lt x ys) = add_mset x (mset ys)"
  by (induction ys) simp_all

lemma mset_fold_insertLeft: "mset (fold (insertLeft lt) xs acc) = mset xs + mset acc"
  by (induction xs arbitrary: acc) (simp_all add: mset_insertLeft)

lemma set_insertLeft: "set (insertLeft lt x ys) = insert x (set ys)"
  by (induction ys) auto

lemma sorted_insertLeft:
  "sorted_wrt (\<lambda>a b. snd a \<le> (snd b :: int)) ys \<Longrightarrow>
   sorted_wrt (\<lambda>a b. snd a \<le> snd b) (insertLeft moreCount x ys)"
  by (induction ys) (auto simp: moreCount_def set_insertLeft)

lemma sorted_fold_insertLeft:
  "sorted_wrt (\<lambda>a b. snd a \<le> (snd b :: int)) acc \<Longrightarrow>
   sorted_wrt (\<lambda>a b. snd a \<le> snd b) (fold (insertLeft moreCount) xs acc)"
  by (induction xs arbitrary: acc) (simp_all add: sorted_insertLeft)

lemma sortsBy_insertionSort: "sortsBy moreCount (insertionSort moreCount)"
  unfolding sortsBy_def insertionSort_def
  by (simp add: mset_fold_insertLeft sorted_wrt_rev moreCount_def not_less sorted_fold_insertLeft)

lemma goRuntime_plainHost: "goRuntime plainHost"
  by (simp add: goRuntime_def plainHost_def visitsAll_def sortsBy_insertionSort)

lemma goRuntime_backwardHost: "goRuntime backwardHost"
  by (simp add: goRuntime_def backwardHost_def plainHost_def visitsAll_def sortsBy_insertionSort)

lemma visitsAll_set: "visitsAll f \<Longrightarrow> set (f xs) = set xs"
  unfolding visitsAll_def by (metis set_mset_mset)

lemma map_of_bump:
  "map_of (map (\<lambda>(k', v'). if k' = k then (k', v' + 1) else (k', v')) m) x =
     (if x = k then map_option (\<lambda>v. v + (1::int)) (map_of m k) else map_of m x)"
  by (induction m) auto

lemma valueAt_incr: "valueAt (incr k m) x = valueAt m x + (if x = k then 1 else 0)"
  by (auto simp: valueAt_def incr_def map_of_bump split: option.splits)

lemma categorizeCommand_set:
  "visitsAll (rangeLists h) \<Longrightarrow>
   set (categorizeCommand h cmd) =
     set (map fst (filter (\<lambda>(category, patterns). list_ex (HasPrefix cmd) patterns)
       categoryPatterns))"
  by (simp add: categorizeCommand_def visitsAll_set)

lemma valueAt_analyzeCommandPattern:
  "valueAt (analyzeCommandPattern cmd patterns) key =
     valueAt patterns key
       + (case map_of patternMap key of
            None \<Rightarrow> 0 | Some regex \<Rightarrow> if MatchString regex cmd then 1 else 0)"
  by (simp add: analyzeCommandPattern_def patternMap_def valueAt_incr)

text \<open>
C4.  The categories of \<^verbatim>\<open>git commit -m x\<close> are \<^verbatim>\<open>development\<close> and nothing else, and
  \<open>analyzeCommandPattern\<close> counts the command under \<^verbatim>\<open>git_workflow\<close>; the categories of
  \<^verbatim>\<open>rm -rf tmp\<close> are \<^verbatim>\<open>file\<close> and nothing else.  The order of the categories in the
  slice is the runtime's, so the slice is compared as a set.
\<close>

theorem classify_examples:
  "goRuntime h \<Longrightarrow>
     set (categorizeCommand h ''git commit -m x'') = {''development''}
     \<and> valueAt (analyzeCommandPattern ''git commit -m x'' patterns) ''git_workflow''
         = valueAt patterns ''git_workflow'' + 1
     \<and> set (categorizeCommand h ''rm -rf tmp'') = {''file''}"
proof -
  assume "goRuntime h"
  then have v: "visitsAll (rangeLists h)" by (simp add: goRuntime_def)
  have a: "set (categorizeCommand h ''git commit -m x'') = {''development''}"
    by (simp add: categorizeCommand_set [OF v] categoryPatterns_def HasPrefix_def)
  have b: "set (categorizeCommand h ''rm -rf tmp'') = {''file''}"
    by (simp add: categorizeCommand_set [OF v] categoryPatterns_def HasPrefix_def)
  have c: "MatchString (Cat (Lit ''git '') (Alt (Lit ''commit'') (Alt (Lit ''push'')
           (Alt (Lit ''pull'') (Lit ''merge''))))) ''git commit -m x''"
    by (simp add: MatchString_def HasPrefix_def)
  have d: "valueAt (analyzeCommandPattern ''git commit -m x'' patterns) ''git_workflow''
         = valueAt patterns ''git_workflow'' + 1"
    using c by (simp add: valueAt_analyzeCommandPattern patternMap_def)
  from a b d show ?thesis by simp
qed

theorem classify_examples_witness:
  "goRuntime plainHost
   \<and> set (categorizeCommand plainHost ''git commit -m x'') = {''development''}
   \<and> valueAt (analyzeCommandPattern ''git commit -m x'' []) ''git_workflow'' = 1
   \<and> set (categorizeCommand plainHost ''rm -rf tmp'') = {''file''}"
  using classify_examples [OF goRuntime_plainHost, of "[]"] goRuntime_plainHost
  by (simp add: valueAt_def)

section \<open>Properties of the counters\<close>

lemma map_of_absent: "(map_of m x = None) = (x \<notin> fst ` set m)"
  by (simp add: map_of_eq_None_iff)

lemma map_of_valueAt: "map_of m x = (if x \<in> fst ` set m then Some (valueAt m x) else None)"
  by (auto simp: valueAt_def map_of_absent split: option.splits)

lemma keys_incr: "fst ` set (incr k m) = insert k (fst ` set m)"
proof (cases "map_of m k")
  case None
  then show ?thesis by (auto simp: incr_def)
next
  case (Some v)
  then have "k \<in> fst ` set m" by (metis map_of_absent option.distinct(1))
  moreover have "fst ` set (map (\<lambda>(k', v'). if k' = k then (k', v' + 1) else (k', v')) m) = fst ` set m"
    by (force simp: image_iff split: prod.splits if_splits)
  ultimately show ?thesis using Some by (auto simp: incr_def)
qed

lemma map_fst_bump:
  "map (fst \<circ> (\<lambda>(k', v'). if k' = k then (k', v' + (1::int)) else (k', v'))) m = map fst m"
  by (induction m) auto

lemma distinct_incr: "distinct (map fst m) \<Longrightarrow> distinct (map fst (incr k m))"
  by (auto simp: incr_def map_fst_bump map_of_absent split: option.splits)

text \<open>A loop that increments the keys of a list that satisfy a test.\<close>

lemma valueAt_fold_incr:
  "distinct ks \<Longrightarrow>
   valueAt (fold (\<lambda>k u. if P k then incr k u else u) ks u) x =
     valueAt u x + (if x \<in> set ks \<and> P x then 1 else 0)"
  by (induction ks arbitrary: u) (auto simp: valueAt_incr)

lemma keys_fold_incr:
  "fst ` set (fold (\<lambda>k u. if P k then incr k u else u) ks u) =
     fst ` set u \<union> {k \<in> set ks. P k}"
  by (induction ks arbitrary: u) (auto simp: keys_incr)

lemma distinct_fold_incr:
  "distinct (map fst u) \<Longrightarrow>
   distinct (map fst (fold (\<lambda>k u. if P k then incr k u else u) ks u))"
  by (induction ks arbitrary: u) (auto simp: distinct_incr)

text \<open>The same loop, run once for each element of a list.\<close>

lemma valueAt_fold_fold_incr:
  "distinct ks \<Longrightarrow>
   valueAt (fold (\<lambda>e u. fold (\<lambda>k u. if P e k then incr k u else u) ks u) es u) x =
     valueAt u x + (if x \<in> set ks then int (length (filter (\<lambda>e. P e x) es)) else 0)"
  by (induction es arbitrary: u) (auto simp: valueAt_fold_incr)

lemma keys_fold_fold_incr:
  "fst ` set (fold (\<lambda>e u. fold (\<lambda>k u. if P e k then incr k u else u) ks u) es u) =
     fst ` set u \<union> {k \<in> set ks. \<exists>e\<in>set es. P e k}"
  by (induction es arbitrary: u) (auto simp: keys_fold_incr)

lemma distinct_fold_fold_incr:
  "distinct (map fst u) \<Longrightarrow>
   distinct (map fst (fold (\<lambda>e u. fold (\<lambda>k u. if P e k then incr k u else u) ks u) es u))"
  by (induction es arbitrary: u) (auto simp: distinct_fold_incr)

section \<open>Properties of the tally\<close>

lemma visitsAll_distinct_keys:
  "visitsAll f \<Longrightarrow> distinct (map fst (f xs)) = distinct (map fst xs)"
proof -
  assume "visitsAll f"
  then have "mset (map fst (f xs)) = mset (map fst xs)"
    by (simp add: visitsAll_def)
  then show ?thesis by (rule mset_eq_imp_distinct_iff)
qed

lemma visitsAll_map_of:
  assumes "visitsAll f" and "distinct (map fst xs)"
  shows "map_of (f xs) = map_of xs"
proof -
  have "distinct (map fst (f xs))" using assms by (simp add: visitsAll_distinct_keys)
  moreover have "set (f xs) = set xs" using assms(1) by (rule visitsAll_set)
  ultimately show ?thesis using assms(2) by (simp add: map_of_inject_set)
qed

lemma visitsAll_length: "visitsAll f \<Longrightarrow> length (f xs) = length xs"
  unfolding visitsAll_def by (metis size_mset)

lemma sortsBy_visitsAll: "sortsBy lt f \<Longrightarrow> visitsAll f"
  by (simp add: sortsBy_def visitsAll_def)

lemma valueAt_Nil: "valueAt [] x = 0"
  by (simp add: valueAt_def)

subsection \<open>The installed languages\<close>

lemma distinct_languages: "distinct (map fst languages)"
  by (simp add: languages_def)

lemma installed_keys:
  "map fst (concat (map (\<lambda>(lang, cmd). case commandOutput h cmd of
                                          None \<Rightarrow> [] | Some out \<Rightarrow> [(lang, out)]) xs)) =
   map fst (filter (\<lambda>(lang, cmd). commandOutput h cmd \<noteq> None) xs)"
  by (induction xs) (auto split: option.splits)

lemma getInstalledLanguages_keys:
  assumes "goRuntime h"
  shows "distinct (map fst (getInstalledLanguages h))"
    and "fst ` set (getInstalledLanguages h) \<subseteq>
           {lang. \<exists>cmd. (lang, cmd) \<in> set languages \<and> commandOutput h cmd \<noteq> None}"
    and "length (getInstalledLanguages h) \<le> 10"
proof -
  define installed where "installed =
    concat (map (\<lambda>(lang, cmd). case commandOutput h cmd of
                                          None \<Rightarrow> [] | Some out \<Rightarrow> [(lang, out)])
                     (rangeStrings h languages))"
  define usageList where "usageList = map (\<lambda>(name, out). (name, 0 :: int)) (rangeStrings h installed)"
  define sorted where "sorted = sortUsage h moreCount usageList"
  have vs: "visitsAll (rangeStrings h)" and vu: "visitsAll (sortUsage h moreCount)"
    using assms by (auto simp: goRuntime_def intro: sortsBy_visitsAll)
  have k1: "map fst installed = map fst (filter (\<lambda>(lang, cmd). commandOutput h cmd \<noteq> None) (rangeStrings h languages))"
    unfolding installed_def by (rule installed_keys)
  have d0: "distinct (map fst (rangeStrings h languages))"
    using vs distinct_languages by (simp add: visitsAll_distinct_keys)
  have d1: "distinct (map fst installed)"
    unfolding k1 using d0 by (rule distinct_map_filter)
  have k2: "map fst usageList = map fst (rangeStrings h installed)"
    unfolding usageList_def by (simp add: case_prod_beta comp_def)
  have d2: "distinct (map fst usageList)"
    unfolding k2 using vs d1 by (simp add: visitsAll_distinct_keys)
  have d3: "distinct (map fst sorted)"
    unfolding sorted_def using vu d2 by (simp add: visitsAll_distinct_keys)
  have res: "map fst (getInstalledLanguages h) = take 10 (map fst sorted)"
    by (simp add: getInstalledLanguages_def Let_def installed_def usageList_def sorted_def
        case_prod_beta comp_def take_map)
  show "distinct (map fst (getInstalledLanguages h))"
    unfolding res using d3 by simp
  have "set (map fst usageList) = set (map fst installed)"
    unfolding k2 using visitsAll_set [OF vs, of installed] by simp
  then have "set (map fst sorted) = set (map fst installed)"
    unfolding sorted_def using visitsAll_set [OF vu, of usageList] by simp
  moreover have "set (map fst installed) \<subseteq> {lang. \<exists>cmd. (lang, cmd) \<in> set languages \<and> commandOutput h cmd \<noteq> None}"
    unfolding k1 using visitsAll_set [OF vs, of languages] by auto
  moreover have "set (take 10 (map fst sorted)) \<subseteq> set (map fst sorted)" by (rule set_take_subset)
  ultimately show "fst ` set (getInstalledLanguages h) \<subseteq>
           {lang. \<exists>cmd. (lang, cmd) \<in> set languages \<and> commandOutput h cmd \<noteq> None}"
    using res by (metis (no_types, lifting) list.set_map subset_trans)
  show "length (getInstalledLanguages h) \<le> 10"
    by (simp add: getInstalledLanguages_def Let_def)
qed

subsection \<open>The tally\<close>

lemma fold_case_prod_fst: "fold (\<lambda>(k, v) u. g k u) xs u = fold g (map fst xs) u"
  by (induction xs arbitrary: u) auto

lemma countLanguages_keys:
  "countLanguages h L cmd u =
     fold (\<lambda>k u. if mentions cmd k then incr k u else u) (map fst (rangeStrings h L)) u"
  by (simp add: countLanguages_def fold_case_prod_fst)

lemma langUsage_fold:
  "langUsage (fold (analyzeEntry h L) es t) =
     fold (\<lambda>e u. fold (\<lambda>k u. if mentions (Command e) k then incr k u else u)
                    (map fst (rangeStrings h L)) u) es (langUsage t)"
  by (induction es arbitrary: t) (simp_all add: analyzeEntry_def countLanguages_keys)

lemma toolUsage_fold:
  "toolUsage (fold (analyzeEntry h L) es t) =
     fold (\<lambda>e u. fold (\<lambda>k u. if HasPrefix (Command e) k \<and> checkToolInstalled h k
                             then incr k u else u) tools u) es (toolUsage t)"
  by (induction es arbitrary: t) (simp_all add: analyzeEntry_def countTools_def)

lemma timeOfDay_fold:
  "timeOfDay (fold (analyzeEntry h L) es t) =
     fold (\<lambda>e u. incr (Hour (Timestamp e)) u) es (timeOfDay t)"
  by (induction es arbitrary: t) (simp_all add: analyzeEntry_def)

lemma commandPatterns_fold:
  "commandPatterns (fold (analyzeEntry h L) es t) =
     fold (\<lambda>e u. analyzeCommandPattern (Command e) u) es (commandPatterns t)"
  by (induction es arbitrary: t) (simp_all add: analyzeEntry_def)

lemma distinct_tools: "distinct tools"
  by (simp add: tools_def)

text \<open>What the language loop has counted after the last entry.\<close>

lemma langUsage_tally:
  assumes "visitsAll (rangeStrings h)" and "distinct (map fst L)"
  shows "valueAt (langUsage (tallyCommands h L es)) x =
           (if x \<in> fst ` set L
            then int (length (filter (\<lambda>e. mentions (Command e) x) es)) else 0)"
    and "fst ` set (langUsage (tallyCommands h L es)) =
           {k \<in> fst ` set L. \<exists>e\<in>set es. mentions (Command e) k}"
    and "distinct (map fst (langUsage (tallyCommands h L es)))"
proof -
  have d: "distinct (map fst (rangeStrings h L))"
    using assms by (simp add: visitsAll_distinct_keys)
  have s: "set (map fst (rangeStrings h L)) = fst ` set L"
    using visitsAll_set [OF assms(1), of L] by simp
  show "valueAt (langUsage (tallyCommands h L es)) x =
           (if x \<in> fst ` set L
            then int (length (filter (\<lambda>e. mentions (Command e) x) es)) else 0)"
    unfolding tallyCommands_def langUsage_fold
    using valueAt_fold_fold_incr [OF d, of "\<lambda>e k. mentions (Command e) k" es "[]" x] s
    by (simp add: valueAt_def)
  show "fst ` set (langUsage (tallyCommands h L es)) =
           {k \<in> fst ` set L. \<exists>e\<in>set es. mentions (Command e) k}"
    unfolding tallyCommands_def langUsage_fold
    using keys_fold_fold_incr [of "\<lambda>e k. mentions (Command e) k" "map fst (rangeStrings h L)" es "[]"] s
    by simp
  show "distinct (map fst (langUsage (tallyCommands h L es)))"
    unfolding tallyCommands_def langUsage_fold
    by (simp add: distinct_fold_fold_incr)
qed

lemma toolUsage_tally:
  shows "valueAt (toolUsage (tallyCommands h L es)) x =
           (if x \<in> set tools
            then int (length (filter (\<lambda>e. HasPrefix (Command e) x \<and> checkToolInstalled h x) es))
            else 0)"
    and "fst ` set (toolUsage (tallyCommands h L es)) =
           {k \<in> set tools. \<exists>e\<in>set es. HasPrefix (Command e) k \<and> checkToolInstalled h k}"
    and "distinct (map fst (toolUsage (tallyCommands h L es)))"
proof -
  show "valueAt (toolUsage (tallyCommands h L es)) x =
           (if x \<in> set tools
            then int (length (filter (\<lambda>e. HasPrefix (Command e) x \<and> checkToolInstalled h x) es))
            else 0)"
    unfolding tallyCommands_def toolUsage_fold
    using valueAt_fold_fold_incr [OF distinct_tools,
        of "\<lambda>e k. HasPrefix (Command e) k \<and> checkToolInstalled h k" es "[]" x]
    by (simp add: valueAt_def)
  show "fst ` set (toolUsage (tallyCommands h L es)) =
           {k \<in> set tools. \<exists>e\<in>set es. HasPrefix (Command e) k \<and> checkToolInstalled h k}"
    unfolding tallyCommands_def toolUsage_fold
    using keys_fold_fold_incr [of "\<lambda>e k. HasPrefix (Command e) k \<and> checkToolInstalled h k" tools es "[]"]
    by simp
  show "distinct (map fst (toolUsage (tallyCommands h L es)))"
    unfolding tallyCommands_def toolUsage_fold
    by (simp add: distinct_fold_fold_incr)
qed

lemma valueAt_fold_incr_key:
  "valueAt (fold (\<lambda>e u. incr (f e) u) es u) x =
     valueAt u x + int (length (filter (\<lambda>e. f e = x) es))"
  by (induction es arbitrary: u) (auto simp: valueAt_incr)

lemma keys_fold_incr_key:
  "fst ` set (fold (\<lambda>e u. incr (f e) u) es u) = fst ` set u \<union> f ` set es"
  by (induction es arbitrary: u) (auto simp: keys_incr)

lemma distinct_fold_incr_key:
  "distinct (map fst u) \<Longrightarrow> distinct (map fst (fold (\<lambda>e u. incr (f e) u) es u))"
  by (induction es arbitrary: u) (auto simp: distinct_incr)

lemma timeOfDay_tally:
  shows "valueAt (timeOfDay (tallyCommands h L es)) x =
           int (length (filter (\<lambda>e. Hour (Timestamp e) = x) es))"
    and "fst ` set (timeOfDay (tallyCommands h L es)) = (\<lambda>e. Hour (Timestamp e)) ` set es"
    and "distinct (map fst (timeOfDay (tallyCommands h L es)))"
  unfolding tallyCommands_def timeOfDay_fold
  by (simp_all add: valueAt_fold_incr_key keys_fold_incr_key distinct_fold_incr_key valueAt_Nil)

lemma tallyCommands_Nil [simp]:
  "tallyCommands h L [] = \<lparr>langUsage = [], toolUsage = [], timeOfDay = [], commandPatterns = []\<rparr>"
  by (simp add: tallyCommands_def)

section \<open>Properties of one pass\<close>

subsection \<open>What one pass writes\<close>

lemma writeProficiency_apply:
  "writeProficiency n xs p x =
     (case map_of (rev xs) x of None \<Rightarrow> p x | Some c \<Rightarrow> Some (real_of_int c / real_of_int n))"
  unfolding writeProficiency_def
  by (induction xs arbitrary: p) (auto simp: map_add_def split: option.splits)

lemma map_of_rev_distinct: "distinct (map fst xs) \<Longrightarrow> map_of (rev xs) = map_of xs"
  by (simp add: map_of_inject_set distinct_rev rev_map [symmetric])

lemma writeProficiency_visited:
  assumes "visitsAll f" and "distinct (map fst m)"
  shows "writeProficiency n (f m) p x =
     (if x \<in> fst ` set m then Some (real_of_int (valueAt m x) / real_of_int n) else p x)"
proof -
  have "distinct (map fst (f m))" using assms by (simp add: visitsAll_distinct_keys)
  then have "map_of (rev (f m)) = map_of m"
    using assms by (simp add: map_of_rev_distinct visitsAll_map_of)
  then show ?thesis
    by (simp add: writeProficiency_apply map_of_valueAt)
qed

lemma analyzeCommands_Proficiency:
  "Proficiency (TechnicalProfile (Insights (analyzeCommands h entries data))) =
     (let t = tallyCommands h (getInstalledLanguages h) entries
      in if entries = [] then Proficiency (TechnicalProfile (Insights data))
         else writeProficiency (int (length entries)) (rangeCounts h (toolUsage t))
                (writeProficiency (int (length entries)) (rangeCounts h (langUsage t))
                   (Proficiency (TechnicalProfile (Insights data)))))"
  by (simp add: analyzeCommands_def Let_def)


lemma analyzeCommands_TechStack:
  "TechStack (TechnicalProfile (Insights (analyzeCommands h entries data))) =
     filter (\<lambda>lang. valueAt (langUsage (tallyCommands h (getInstalledLanguages h) entries)) lang > 0)
       (map fst (rangeStrings h (getInstalledLanguages h)))"
  by (simp add: analyzeCommands_def Let_def)

lemma analyzeCommands_PeakHours:
  "PeakHours (WorkPatterns (Insights (analyzeCommands h entries data))) =
     getPeakHours h (timeOfDay (tallyCommands h (getInstalledLanguages h) entries))"
  by (simp add: analyzeCommands_def Let_def)

lemma analyzeCommands_Productivity:
  "Productivity (WorkPatterns (Insights (analyzeCommands h entries data))) =
     calculateProductivityMetrics entries
       (commandPatterns (tallyCommands h (getInstalledLanguages h) entries))"
  by (simp add: analyzeCommands_def Let_def)

lemma analyzeCommands_frame:
  "Histories (analyzeCommands h entries data) = Histories data"
  "ShellConfigs (analyzeCommands h entries data) = ShellConfigs data"
  "CommonCmds (analyzeCommands h entries data) = CommonCmds data"
  "TimePatterns (analyzeCommands h entries data) = TimePatterns data"
  "ToolUsage (Insights (analyzeCommands h entries data)) = ToolUsage (Insights data)"
  "SecondarySkills (TechnicalProfile (Insights (analyzeCommands h entries data))) =
     SecondarySkills (TechnicalProfile (Insights data))"
  "CommonWorkflows (WorkPatterns (Insights (analyzeCommands h entries data))) =
     CommonWorkflows (WorkPatterns (Insights data))"
  by (simp_all add: analyzeCommands_def Let_def)

lemma length_filter_le_int: "int (length (filter P xs)) \<le> int (length xs)"
  by simp

lemma languageCount_bounds: "0 \<le> languageCount entries lang \<and> languageCount entries lang \<le> int (length entries)"
  by (simp add: languageCount_def)

lemma toolCount_bounds: "0 \<le> toolCount h entries tool \<and> toolCount h entries tool \<le> int (length entries)"
  by (simp add: toolCount_def)

lemma proficiency_formula:
  assumes "goRuntime h" and "entries \<noteq> []"
  shows "Proficiency (TechnicalProfile (Insights (analyzeCommands h entries data))) key =
     (if key \<in> set tools \<and> 0 < toolCount h entries key
      then Some (real_of_int (toolCount h entries key) / real (length entries))
      else if key \<in> fst ` set (getInstalledLanguages h) \<and> 0 < languageCount entries key
      then Some (real_of_int (languageCount entries key) / real (length entries))
      else Proficiency (TechnicalProfile (Insights data)) key)"
proof -
  define L where "L = getInstalledLanguages h"
  define t where "t = tallyCommands h L entries"
  have vs: "visitsAll (rangeStrings h)" and vc: "visitsAll (rangeCounts h)"
    using assms(1) by (simp_all add: goRuntime_def)
  have dL: "distinct (map fst L)"
    unfolding L_def using assms(1) by (rule getInstalledLanguages_keys)
  have lk: "(key \<in> fst ` set (langUsage t)) = (key \<in> fst ` set L \<and> 0 < languageCount entries key)"
    unfolding t_def langUsage_tally(2) [OF vs dL]
    by (auto simp: languageCount_def filter_empty_conv)
  have lv: "key \<in> fst ` set L \<Longrightarrow> valueAt (langUsage t) key = languageCount entries key"
    unfolding t_def by (simp add: langUsage_tally(1) [OF vs dL] languageCount_def)
  have tk: "(key \<in> fst ` set (toolUsage t)) = (key \<in> set tools \<and> 0 < toolCount h entries key)"
    unfolding t_def toolUsage_tally(2)
    by (auto simp: toolCount_def filter_empty_conv)
  have tv: "key \<in> set tools \<Longrightarrow> valueAt (toolUsage t) key = toolCount h entries key"
    unfolding t_def by (simp add: toolUsage_tally(1) toolCount_def)
  have dl: "distinct (map fst (langUsage t))"
    unfolding t_def by (rule langUsage_tally(3) [OF vs dL])
  have dt: "distinct (map fst (toolUsage t))"
    unfolding t_def by (rule toolUsage_tally(3))
  show ?thesis
    using assms(2) lk lv tk tv
    by (simp add: analyzeCommands_Proficiency Let_def L_def [symmetric] t_def [symmetric]
        writeProficiency_visited [OF vc dl] writeProficiency_visited [OF vc dt])
qed


lemma installed_plainHost:
  "getInstalledLanguages plainHost = [(''python'', ''Python 3''), (''java'', ''java 21'')]"
  by (simp add: getInstalledLanguages_def plainHost_def languages_def insertionSort_def
      moreCount_def)

lemma ratio_bounds:
  "0 \<le> c \<Longrightarrow> c \<le> int n \<Longrightarrow> 0 < n \<Longrightarrow>
     0 \<le> real_of_int c / real n \<and> real_of_int c / real n \<le> 1"
  by (simp add: divide_le_eq_1 of_int_le_iff [symmetric] del: of_int_le_iff)

lemma languageCount_commands:
  "languageCount entries lang = int (length (filter (\<lambda>c. mentions c lang) (map Command entries)))"
  by (simp add: languageCount_def filter_map comp_def)

lemma plainHistory_lines:
  "fst (scanLines plainHistory) =
     [''python'', ''ls'', ''python3'', ''cd'', ''pwd'', ''mypython'', ''cat'', ''echo'', ''pip'', ''vi'']"
  "snd (scanLines plainHistory) = False"
  by (simp_all add: scanLines_def plainHistory_def MaxScanTokenSize_def dropCR_def)

lemma plainEntries_loop:
  "plainEntries = historyLoop plainHost 0 (fst (scanLines plainHistory))"
  by (simp add: plainEntries_def readHistory_def plainHost_def)

lemma plainEntries_commands:
  "map Command plainEntries =
     [''python'', ''ls'', ''python3'', ''cd'', ''pwd'', ''mypython'', ''cat'', ''echo'', ''pip'', ''vi'']"
  unfolding plainEntries_loop historyLoop_commands plainHistory_lines
  by (simp add: cleanHistoryLine_def Fields_def spaceWidth_def spaceSeqs_def HasPrefix_def
      IsSpace_def)

text \<open>
C1.  After a pass over a history that is not empty, the proficiency recorded under a key
  is a usage count divided by the number of entries of the history: the count of the tool
  loop when it is positive, else the count of the language loop when the key is an
  installed language and the count is positive, else what an earlier pass left there.  No
  count exceeds the number of entries, so every value of the map lies between 0 and 1 if
  the values before the pass did (the map is empty at the start).  For a history of 10
  entries of which 4 count for \<^verbatim>\<open>python\<close>, the proficiency of \<^verbatim>\<open>python\<close> is 4/10.  The quotient of
  the two \<^verbatim>\<open>float64\<close> values is taken here as the exact quotient; rounding it to the
  nearest \<^verbatim>\<open>float64\<close> keeps it between 0 and 1 and gives the \<^verbatim>\<open>float64\<close> that the
  literal 0.4 denotes.
\<close>

theorem proficiency_is_ratio:
  assumes "goRuntime h"
  shows "(entries \<noteq> [] \<longrightarrow>
           Proficiency (TechnicalProfile (Insights (analyzeCommands h entries data))) key =
             (if key \<in> set tools \<and> 0 < toolCount h entries key
              then Some (real_of_int (toolCount h entries key) / real (length entries))
              else if key \<in> fst ` set (getInstalledLanguages h) \<and> 0 < languageCount entries key
              then Some (real_of_int (languageCount entries key) / real (length entries))
              else Proficiency (TechnicalProfile (Insights data)) key))
       \<and> toolCount h entries key \<le> int (length entries)
       \<and> languageCount entries key \<le> int (length entries)
       \<and> ((\<forall>k v. Proficiency (TechnicalProfile (Insights data)) k = Some v \<longrightarrow> 0 \<le> v \<and> v \<le> 1)
            \<longrightarrow> (\<forall>k v. Proficiency (TechnicalProfile (Insights (analyzeCommands h entries data))) k
                          = Some v \<longrightarrow> 0 \<le> v \<and> v \<le> 1))
       \<and> (length entries = 10 \<and> ''python'' \<in> fst ` set (getInstalledLanguages h)
            \<and> languageCount entries ''python'' = 4
          \<longrightarrow> Proficiency (TechnicalProfile (Insights (analyzeCommands h entries data))) ''python''
                = Some (4 / 10))"
proof (intro conjI impI)
  assume "entries \<noteq> []"
  then show "Proficiency (TechnicalProfile (Insights (analyzeCommands h entries data))) key =
             (if key \<in> set tools \<and> 0 < toolCount h entries key
              then Some (real_of_int (toolCount h entries key) / real (length entries))
              else if key \<in> fst ` set (getInstalledLanguages h) \<and> 0 < languageCount entries key
              then Some (real_of_int (languageCount entries key) / real (length entries))
              else Proficiency (TechnicalProfile (Insights data)) key)"
    by (rule proficiency_formula [OF assms])
next
  show "toolCount h entries key \<le> int (length entries)"
    by (simp add: toolCount_bounds)
next
  show "languageCount entries key \<le> int (length entries)"
    by (simp add: languageCount_bounds)
next
  assume old: "\<forall>k v. Proficiency (TechnicalProfile (Insights data)) k = Some v \<longrightarrow> 0 \<le> v \<and> v \<le> 1"
  show "\<forall>k v. Proficiency (TechnicalProfile (Insights (analyzeCommands h entries data))) k
                          = Some v \<longrightarrow> 0 \<le> v \<and> v \<le> 1"
  proof (cases "entries = []")
    case True
    with old show ?thesis by (simp add: analyzeCommands_Proficiency)
  next
    case False
    then have n: "0 < length entries" by simp
    show ?thesis
    proof (intro allI impI)
      fix k v
      assume "Proficiency (TechnicalProfile (Insights (analyzeCommands h entries data))) k = Some v"
      then have "(k \<in> set tools \<and> 0 < toolCount h entries k
              \<and> v = real_of_int (toolCount h entries k) / real (length entries))
          \<or> (k \<in> fst ` set (getInstalledLanguages h) \<and> 0 < languageCount entries k
              \<and> v = real_of_int (languageCount entries k) / real (length entries))
          \<or> Proficiency (TechnicalProfile (Insights data)) k = Some v"
        unfolding proficiency_formula [OF assms False] by (auto split: if_splits)
      then show "0 \<le> v \<and> v \<le> 1"
        using old ratio_bounds [OF _ _ n] toolCount_bounds [of h entries k]
          languageCount_bounds [of entries k]
        by blast
    qed
  qed
next
  assume a: "length entries = 10 \<and> ''python'' \<in> fst ` set (getInstalledLanguages h)
            \<and> languageCount entries ''python'' = 4"
  then have "entries \<noteq> []" by auto
  then show "Proficiency (TechnicalProfile (Insights (analyzeCommands h entries data))) ''python''
                = Some (4 / 10)"
    using a by (simp add: proficiency_formula [OF assms] tools_def)
qed

theorem proficiency_is_ratio_witness:
  "goRuntime plainHost \<and> length plainEntries = 10
   \<and> ''python'' \<in> fst ` set (getInstalledLanguages plainHost)
   \<and> languageCount plainEntries ''python'' = 4
   \<and> Proficiency (TechnicalProfile (Insights (analyzeCommands plainHost plainEntries initShellData)))
        ''python'' = Some (4 / 10)
   \<and> Proficiency (TechnicalProfile (Insights initShellData)) = Map.empty"
proof -
  have len: "length plainEntries = 10"
    using arg_cong [OF plainEntries_commands, of length] by simp
  have inst: "''python'' \<in> fst ` set (getInstalledLanguages plainHost)"
    by (simp add: installed_plainHost)
  have cnt: "languageCount plainEntries ''python'' = 4"
    by (simp add: languageCount_commands plainEntries_commands mentions_def HasPrefix_def
        getPackageManager_def managers_def)
  have init: "Proficiency (TechnicalProfile (Insights initShellData)) = Map.empty"
    by (simp add: initShellData_def)
  show ?thesis
    using proficiency_is_ratio [OF goRuntime_plainHost, of plainEntries initShellData "''python''"]
      goRuntime_plainHost len inst cnt init
    by simp
qed

lemma visitsAll_Nil: "visitsAll f \<Longrightarrow> f [] = []"
  unfolding visitsAll_def by (metis mset_zero_iff)




lemma Contains_Nil: "Contains cmd []"
  by (induction cmd) (simp_all add: HasPrefix_def)

lemma mentions_without_manager: "getPackageManager lang = [] \<Longrightarrow> mentions cmd lang"
  by (simp add: mentions_def Contains_Nil)

text \<open>
C5.  The test of the language loop asks whether the command contains what
  \<open>getPackageManager\<close> returns, and for a language without an entry in \<open>managers\<close> that is
  the empty string, which every command contains.  On \<open>plainHost\<close> the probe of \<^verbatim>\<open>java\<close>
  succeeds and \<^verbatim>\<open>java\<close> has no package manager in the table: none of the ten commands of
  the history contains \<^verbatim>\<open>java\<close>, and all ten are counted for it.
\<close>

theorem language_without_manager_counts_every_command:
  "''java'' \<in> fst ` set (getInstalledLanguages plainHost)
   \<and> getPackageManager ''java'' = []
   \<and> filter (\<lambda>c. Contains c ''java'') (map Command plainEntries) = []
   \<and> valueAt (langUsage (tallyCommands plainHost (getInstalledLanguages plainHost) plainEntries))
        ''java'' = 10
   \<and> Proficiency (TechnicalProfile (Insights (analyzeCommands plainHost plainEntries initShellData)))
        ''java'' = Some 1"
proof -
  have inst: "''java'' \<in> fst ` set (getInstalledLanguages plainHost)"
    by (simp add: installed_plainHost)
  have pm: "getPackageManager ''java'' = []"
    by (simp add: getPackageManager_def managers_def)
  have none: "filter (\<lambda>c. Contains c ''java'') (map Command plainEntries) = []"
    by (simp add: plainEntries_commands HasPrefix_def)
  have len: "length plainEntries = 10"
    using arg_cong [OF plainEntries_commands, of length] by simp
  have cnt: "languageCount plainEntries ''java'' = 10"
    using len by (simp add: languageCount_def mentions_without_manager [OF pm])
  have vs: "visitsAll (rangeStrings plainHost)"
    using goRuntime_plainHost by (simp add: goRuntime_def)
  have val: "valueAt (langUsage (tallyCommands plainHost (getInstalledLanguages plainHost) plainEntries))
        ''java'' = 10"
    using langUsage_tally(1) [OF vs getInstalledLanguages_keys(1) [OF goRuntime_plainHost],
        of plainEntries "''java''"] inst cnt
    by (simp add: languageCount_def)
  have ne: "plainEntries \<noteq> []" using len by auto
  have prof: "Proficiency (TechnicalProfile (Insights (analyzeCommands plainHost plainEntries initShellData)))
        ''java'' = Some 1"
    using inst cnt len
    by (simp add: proficiency_formula [OF goRuntime_plainHost ne] tools_def)
  from inst pm none val prof show ?thesis by simp
qed

section \<open>Properties of the primary role\<close>




lemma langUsage_commands:
  "langUsage (tallyCommands h L es) =
     fold (\<lambda>c u. countLanguages h L c u) (map Command es) []"
  by (simp add: tallyCommands_def langUsage_fold countLanguages_keys fold_map comp_def)




section \<open>Properties of the peak hours\<close>

lemma singleton_keys:
  assumes "distinct (map fst m)" and "fst ` set m = {k}"
  shows "\<exists>v. m = [(k, v)]"
proof (cases m)
  case Nil
  with assms(2) show ?thesis by simp
next
  case (Cons x xs)
  show ?thesis
  proof (cases xs)
    case Nil
    with Cons assms(2) show ?thesis by (cases x) auto
  next
    case (Cons y ys)
    with \<open>m = x # xs\<close> assms(2) have "fst x = k" and "fst y = k" by auto
    with Cons \<open>m = x # xs\<close> assms(1) show ?thesis by auto
  qed
qed

lemma constant_image: "xs \<noteq> [] \<Longrightarrow> \<forall>e\<in>set xs. f e = c \<Longrightarrow> f ` set xs = {c}"
  by (cases xs) (auto simp: image_iff)

lemma visitsAll_singleton: "visitsAll f \<Longrightarrow> f [x] = [x]"
  unfolding visitsAll_def by (metis mset.simps(1) mset.simps(2) mset_single_iff_right)

lemma getPeakHours_sorted:
  assumes "goRuntime h"
  shows "\<exists>S. mset S = mset hourCounts \<and> sorted_wrt (\<lambda>a b. snd b \<le> snd a) S
           \<and> getPeakHours h hourCounts = map fst (take 3 S)"
proof -
  have v: "visitsAll (rangeHours h)" and s: "sortsBy moreCount (sortHours h moreCount)"
    using assms by (simp_all add: goRuntime_def)
  let ?S = "sortHours h moreCount (rangeHours h hourCounts)"
  have "mset ?S = mset hourCounts"
    using s v by (simp add: sortsBy_def visitsAll_def)
  moreover have "sorted_wrt (\<lambda>a b. snd b \<le> snd a) ?S"
    using s by (simp add: sortsBy_def moreCount_def not_less)
  moreover have "getPeakHours h hourCounts = map fst (take 3 ?S)"
    by (simp add: getPeakHours_def)
  ultimately show ?thesis by blast
qed

lemma getPeakHours_singleton:
  assumes "goRuntime h"
  shows "getPeakHours h [(k, c)] = [k]"
proof -
  have v: "visitsAll (rangeHours h)" and s: "visitsAll (sortHours h moreCount)"
    using assms by (auto simp: goRuntime_def intro: sortsBy_visitsAll)
  show ?thesis by (simp add: getPeakHours_def visitsAll_singleton [OF v] visitsAll_singleton [OF s])
qed

lemma historyLoop_timestamps:
  "e \<in> set (historyLoop h i ls) \<Longrightarrow> \<exists>j. Timestamp e = timeNow h j"
  by (induction ls arbitrary: i) (auto simp: Let_def split: if_splits)

lemma plainEntries_hours: "e \<in> set plainEntries \<Longrightarrow> Hour (Timestamp e) = 14"
  unfolding plainEntries_loop using historyLoop_timestamps [of e plainHost 0]
  by (auto simp: plainHost_def)

text \<open>
C7, as the code has it.  The loop over the commands counts, for each hour of the day, the
  entries with that hour.  \<open>getPeakHours\<close> returns at most three hours: the hours of the
  first three buckets of the slice that \<^verbatim>\<open>sort.Slice\<close> leaves, which holds every bucket
  once, no bucket before one with a greater count.  The order of buckets with equal counts
  is that of the runtime.  With one bucket, for the hour 14, the result is \<open>[14]\<close>; a
  history that is not empty and has all its entries at 14 hours gives \<open>[14]\<close>, and an empty
  history gives no hour.
\<close>

theorem getPeakHours_top_three:
  assumes "goRuntime h"
  shows "valueAt (timeOfDay (tallyCommands h (getInstalledLanguages h) entries)) hour
           = int (length (filter (\<lambda>e. Hour (Timestamp e) = hour) entries))
     \<and> length (getPeakHours h hourCounts) \<le> 3
     \<and> (\<exists>S. mset S = mset hourCounts \<and> sorted_wrt (\<lambda>a b. snd b \<le> snd a) S
           \<and> getPeakHours h hourCounts = map fst (take 3 S))
     \<and> getPeakHours h [(14, c)] = [14]
     \<and> (entries \<noteq> [] \<and> (\<forall>e\<in>set entries. Hour (Timestamp e) = 14)
          \<longrightarrow> PeakHours (WorkPatterns (Insights (analyzeCommands h entries data))) = [14])
     \<and> PeakHours (WorkPatterns (Insights (analyzeCommands h [] data))) = []"
proof (intro conjI impI)
  show "valueAt (timeOfDay (tallyCommands h (getInstalledLanguages h) entries)) hour
           = int (length (filter (\<lambda>e. Hour (Timestamp e) = hour) entries))"
    by (rule timeOfDay_tally(1))
  show "length (getPeakHours h hourCounts) \<le> 3"
    by (simp add: getPeakHours_def)
  show "\<exists>S. mset S = mset hourCounts \<and> sorted_wrt (\<lambda>a b. snd b \<le> snd a) S
           \<and> getPeakHours h hourCounts = map fst (take 3 S)"
    using assms by (rule getPeakHours_sorted)
  show "getPeakHours h [(14, c)] = [14]"
    using assms by (rule getPeakHours_singleton)
next
  assume a: "entries \<noteq> [] \<and> (\<forall>e\<in>set entries. Hour (Timestamp e) = 14)"
  let ?t = "tallyCommands h (getInstalledLanguages h) entries"
  have "fst ` set (timeOfDay ?t) = {14}"
    using a constant_image [of entries "\<lambda>e. Hour (Timestamp e)" 14]
    by (simp add: timeOfDay_tally(2))
  then obtain v where "timeOfDay ?t = [(14, v)]"
    using singleton_keys [OF timeOfDay_tally(3)] by blast
  then show "PeakHours (WorkPatterns (Insights (analyzeCommands h entries data))) = [14]"
    by (simp add: analyzeCommands_PeakHours getPeakHours_singleton [OF assms])
next
  have v: "visitsAll (rangeHours h)" and s: "visitsAll (sortHours h moreCount)"
    using assms by (auto simp: goRuntime_def intro: sortsBy_visitsAll)
  show "PeakHours (WorkPatterns (Insights (analyzeCommands h [] data))) = []"
    by (simp add: analyzeCommands_PeakHours getPeakHours_def visitsAll_Nil [OF v] visitsAll_Nil [OF s])
qed

theorem getPeakHours_top_three_witness:
  "goRuntime plainHost \<and> plainEntries \<noteq> []
   \<and> set (map (\<lambda>e. Hour (Timestamp e)) plainEntries) = {14}
   \<and> PeakHours (WorkPatterns (Insights (analyzeCommands plainHost plainEntries initShellData)))
       = [14]
   \<and> getPeakHours plainHost [(9, 1), (10, 3), (11, 2), (12, 5)] = [12, 10, 11]"
proof -
  have ne: "plainEntries \<noteq> []"
    using arg_cong [OF plainEntries_commands, of length] by auto
  have hrs: "\<forall>e\<in>set plainEntries. Hour (Timestamp e) = 14"
    using plainEntries_hours by blast
  have hs: "set (map (\<lambda>e. Hour (Timestamp e)) plainEntries) = {14}"
    using constant_image [OF ne hrs] by simp
  have pk: "PeakHours (WorkPatterns (Insights (analyzeCommands plainHost plainEntries initShellData)))
       = [14]"
    using getPeakHours_top_three [OF goRuntime_plainHost, of plainEntries 0 "[]" 0 initShellData]
      ne hrs by blast
  have ex: "getPeakHours plainHost [(9, 1), (10, 3), (11, 2), (12, 5)] = [12, 10, 11]"
    by (simp add: getPeakHours_def plainHost_def insertionSort_def moreCount_def)
  from goRuntime_plainHost ne hs pk ex show ?thesis by simp
qed

text \<open>
C7 says that among buckets with equal counts the lower hour comes first.  The sort
  compares counts only, and the slice it sorts is in the order in which the \<^verbatim>\<open>range\<close>
  loop visited the map: a runtime that visits the bucket of 14 hours before the bucket of
  13 hours returns 14 before 13, and even a runtime that visits the buckets in the order in
  which they were written returns 23 before 0 for commands read across midnight.
\<close>

theorem getPeakHours_tie_not_by_lower_hour:
  "goRuntime backwardHost \<and> getPeakHours backwardHost [(13, 1), (14, 1)] = [14, 13]
   \<and> goRuntime plainHost \<and> getPeakHours plainHost [(23, 1), (0, 1)] = [23, 0]"
  using goRuntime_plainHost goRuntime_backwardHost
  by (simp add: getPeakHours_def plainHost_def backwardHost_def insertionSort_def moreCount_def)

section \<open>Properties of the configuration parser\<close>














lemma rawLines_last:
  "CHR 0x0A \<notin> set l \<Longrightarrow> rawLines cur l = (if cur @ l = [] then [] else [cur @ l])"
  by (induction l arbitrary: cur) auto





lemma length_longLine: "length longLine = MaxScanTokenSize"
  by (simp add: longLine_def)

lemma newline_longLine: "CHR 0x0A \<notin> set longLine"
  by (simp add: longLine_def)






lemma assignment_echo:
  "assignment ''alias '' ''echo hi'' = None \<and> assignment ''export '' ''echo hi'' = None"
  by (simp add: assignment_def HasPrefix_def)


lemma scanLines_twice:
  "fst (scanLines (''alias a=1'' @ CHR 0x0A # ''alias a=2'')) = [] @ ''alias a=1'' # [''alias a=2'']"
  by (simp add: scanLines_def MaxScanTokenSize_def dropCR_def)




section \<open>Properties of the loop over the shells\<close>

lemma analyzeShell_unreadable:
  "historyOf h path = None \<Longrightarrow> analyzeShell h shell path data = Some data"
  by (auto simp: analyzeShell_def historyOf_def Let_def split: if_splits)

lemma analyzeShell_readable:
  assumes "historyOf h path = Some entries" and "analyzeShell h shell path data = Some data'"
  shows "Histories data' = (Histories data)(shell \<mapsto> entries)"
    and "ShellConfigs data' = (ShellConfigs data)(shell := analyzeShellConfigs h shell)"
    and "Insights data' = Insights (analyzeCommands h entries (data\<lparr>Histories := (Histories data)(shell \<mapsto> entries)\<rparr>))"
  using assms
  by (auto simp: analyzeShell_def historyOf_def Let_def analyzeCommands_frame
      split: if_splits option.splits)

lemma shellsLoop_Histories:
  "distinct (map fst xs) \<Longrightarrow> shellsLoop h xs data = Some data' \<Longrightarrow>
   Histories data' shell =
     (case map_of xs shell of
        None \<Rightarrow> Histories data shell
      | Some path \<Rightarrow> (case historyOf h path of
                        None \<Rightarrow> Histories data shell | Some entries \<Rightarrow> Some entries))"
proof (induction xs arbitrary: data)
  case Nil
  then show ?case by simp
next
  case (Cons x xs)
  obtain s p where x: "x = (s, p)" by (cases x)
  from Cons.prems(2) obtain d1 where d1: "analyzeShell h s p data = Some d1"
    and rest: "shellsLoop h xs d1 = Some data'"
    by (auto simp: x split: option.splits)
  have dist: "distinct (map fst xs)" and fresh: "map_of xs s = None"
    using Cons.prems(1) by (auto simp: x map_of_eq_None_iff)
  note IH = Cons.IH [OF dist rest]
  show ?case
  proof (cases "historyOf h p")
    case None
    then have "d1 = data" using d1 by (simp add: analyzeShell_unreadable)
    then show ?thesis using IH None fresh by (auto simp: x split: option.splits)
  next
    case (Some entries)
    then have "Histories d1 = (Histories data)(shell' \<mapsto> entries)" if "shell' = s" for shell'
      using analyzeShell_readable(1) [OF Some d1] that by simp
    then show ?thesis using IH Some fresh by (auto simp: x split: option.splits)
  qed
qed

lemma shellsLoop_ShellConfigs:
  "distinct (map fst xs) \<Longrightarrow> shellsLoop h xs data = Some data' \<Longrightarrow>
   ShellConfigs data' shell =
     (case map_of xs shell of
        None \<Rightarrow> ShellConfigs data shell
      | Some path \<Rightarrow> (case historyOf h path of
                        None \<Rightarrow> ShellConfigs data shell
                      | Some entries \<Rightarrow> analyzeShellConfigs h shell))"
proof (induction xs arbitrary: data)
  case Nil
  then show ?case by simp
next
  case (Cons x xs)
  obtain s p where x: "x = (s, p)" by (cases x)
  from Cons.prems(2) obtain d1 where d1: "analyzeShell h s p data = Some d1"
    and rest: "shellsLoop h xs d1 = Some data'"
    by (auto simp: x split: option.splits)
  have dist: "distinct (map fst xs)" and fresh: "map_of xs s = None"
    using Cons.prems(1) by (auto simp: x map_of_eq_None_iff)
  note IH = Cons.IH [OF dist rest]
  show ?case
  proof (cases "historyOf h p")
    case None
    then have "d1 = data" using d1 by (simp add: analyzeShell_unreadable)
    then show ?thesis using IH None fresh by (auto simp: x split: option.splits)
  next
    case (Some entries)
    have "ShellConfigs d1 = (ShellConfigs data)(s := analyzeShellConfigs h s)"
      using analyzeShell_readable(2) [OF Some d1] .
    then show ?thesis using IH Some fresh by (auto simp: x split: option.splits)
  qed
qed

lemma distinct_shellPaths: "distinct (map fst shellPaths)"
  by (simp add: shellPaths_def)

lemma fishLoop_total:
  "\<forall>file\<in>set files. EntryInfo file \<noteq> None \<Longrightarrow> \<exists>c. fishLoop h dir files config = Some c"
  by (induction files arbitrary: config) auto

lemma analyzeShellConfigs_total:
  assumes "\<forall>files. ReadDir h (expandPath h ''~/.config/fish/conf.d'') = Some files
             \<longrightarrow> (\<forall>file\<in>set files. EntryInfo file \<noteq> None)"
  shows "\<exists>c. analyzeShellConfigs h shell = Some c"
  using assms fishLoop_total
  by (auto simp: analyzeShellConfigs_def detectPlugins_def detectFishPlugins_def Let_def
      split: option.splits)

lemma analyzeShell_total:
  assumes "\<forall>files. ReadDir h (expandPath h ''~/.config/fish/conf.d'') = Some files
             \<longrightarrow> (\<forall>file\<in>set files. EntryInfo file \<noteq> None)"
  shows "\<exists>d. analyzeShell h shell path data = Some d"
  using analyzeShellConfigs_total [OF assms, of shell]
  by (auto simp: analyzeShell_def Let_def)

lemma shellsLoop_total:
  assumes "\<forall>files. ReadDir h (expandPath h ''~/.config/fish/conf.d'') = Some files
             \<longrightarrow> (\<forall>file\<in>set files. EntryInfo file \<noteq> None)"
  shows "\<exists>d. shellsLoop h xs data = Some d"
proof (induction xs arbitrary: data)
  case Nil
  show ?case by simp
next
  case (Cons x xs)
  obtain s p where x: "x = (s, p)" by (cases x)
  obtain d1 where "analyzeShell h s p data = Some d1"
    using analyzeShell_total [OF assms] by blast
  then show ?case using Cons [of d1] by (simp add: x)
qed

lemma historyOf_missing: "openFile h (expandPath h path) = None \<Longrightarrow> historyOf h path = None"
  by (simp add: historyOf_def readHistory_def)

lemma historyOf_too_long:
  "openFile h (expandPath h path) = Some content \<Longrightarrow> snd (scanLines content) \<Longrightarrow>
   historyOf h path = None"
  by (simp add: historyOf_def readHistory_def)

text \<open>
C9.  In the data that \<open>analyzeShells\<close> returns, \<open>Histories\<close> has an entry for a shell
  exactly when the shell is one of the three of \<open>shellPaths\<close> and \<open>readHistory\<close> returns
  no error for its path, and the entry is then the history read from that path;
  \<open>ShellConfigs\<close> has the configuration of the shell for the same shells and no entry for
  the others.  A path that cannot be opened, and a file whose scan ends with an error, give
  no history: such a shell has no entry in either map.  The entries of a shell depend on
  the files of that shell only, whatever becomes of the other shells and in whatever order
  the runtime visits \<open>shellPaths\<close>.  The analysis returns its data unless
  \<^verbatim>\<open>file.Info()\<close> fails in \<open>detectFishPlugins\<close>.
\<close>

theorem unreadable_shell_is_absent:
  assumes "goRuntime h"
  shows "(analyzeShells h = Some data \<longrightarrow>
            Histories data shell =
              (case map_of shellPaths shell of
                 None \<Rightarrow> None | Some path \<Rightarrow> historyOf h path)
          \<and> ShellConfigs data shell =
              (case map_of shellPaths shell of
                 None \<Rightarrow> None
               | Some path \<Rightarrow> (case historyOf h path of
                                 None \<Rightarrow> None
                               | Some entries \<Rightarrow> analyzeShellConfigs h shell)))
     \<and> (openFile h (expandPath h path) = None \<longrightarrow> historyOf h path = None)
     \<and> (openFile h (expandPath h path) = Some content \<and> snd (scanLines content)
          \<longrightarrow> historyOf h path = None)
     \<and> ((\<forall>files. ReadDir h (expandPath h ''~/.config/fish/conf.d'') = Some files
             \<longrightarrow> (\<forall>file\<in>set files. EntryInfo file \<noteq> None))
          \<longrightarrow> (\<exists>result. analyzeShells h = Some result))"
proof -
  have v: "visitsAll (rangeStrings h)" using assms by (simp add: goRuntime_def)
  have d: "distinct (map fst (rangeStrings h shellPaths))"
    using visitsAll_distinct_keys [OF v, of shellPaths] distinct_shellPaths by simp
  have m: "map_of (rangeStrings h shellPaths) = map_of shellPaths"
    using visitsAll_map_of [OF v distinct_shellPaths] .
  have "Histories data shell =
          (case map_of shellPaths shell of None \<Rightarrow> None | Some path \<Rightarrow> historyOf h path)"
    if "analyzeShells h = Some data"
    using shellsLoop_Histories [OF d, of h initShellData data shell] that
    by (simp add: analyzeShells_def m initShellData_def split: option.splits)
  moreover have "ShellConfigs data shell =
          (case map_of shellPaths shell of
             None \<Rightarrow> None
           | Some path \<Rightarrow> (case historyOf h path of
                             None \<Rightarrow> None | Some entries \<Rightarrow> analyzeShellConfigs h shell))"
    if "analyzeShells h = Some data"
    using shellsLoop_ShellConfigs [OF d, of h initShellData data shell] that
    by (simp add: analyzeShells_def m initShellData_def split: option.splits)
  moreover have "\<exists>result. analyzeShells h = Some result"
    if "\<forall>files. ReadDir h (expandPath h ''~/.config/fish/conf.d'') = Some files
             \<longrightarrow> (\<forall>file\<in>set files. EntryInfo file \<noteq> None)"
    unfolding analyzeShells_def using shellsLoop_total [OF that] .
  ultimately show ?thesis
    using historyOf_missing [of h path] historyOf_too_long [of h path content] by blast
qed

lemma goRuntime_longHost: "goRuntime longHost"
  using goRuntime_plainHost by (simp add: goRuntime_def longHost_def)

lemma expandPath_plainHost:
  "expandPath plainHost ''~/.bash_history'' = ''/home/u/.bash_history''"
  "expandPath plainHost ''~/.zsh_history'' = ''/home/u/.zsh_history''"
  "expandPath plainHost ''~/.local/share/fish/fish_history'' = ''/home/u/.local/share/fish/fish_history''"
  by (simp_all add: expandPath_def plainHost_def HasPrefix_def)

lemma historyOf_plainHost:
  "historyOf plainHost ''~/.bash_history'' = Some plainEntries"
  "historyOf plainHost ''~/.zsh_history'' = None"
  "historyOf plainHost ''~/.local/share/fish/fish_history'' = None"
  unfolding historyOf_def expandPath_plainHost plainEntries_def
  by (simp_all add: readHistory_def plainHost_def plainHistory_lines)

lemma scanLines_longLine: "scanLines longLine = ([], True)"
proof -
  have "0 < length longLine" by (simp add: length_longLine MaxScanTokenSize_def)
  then have "longLine \<noteq> []" by blast
  then have "rawLines [] longLine = [longLine]"
    using rawLines_last [OF newline_longLine, of "[]"] by simp
  then show ?thesis by (simp add: scanLines_def length_longLine)
qed

lemma openFile_longHost:
  "openFile longHost (expandPath longHost ''~/.bash_history'') = Some longLine"
  by (simp add: longHost_def expandPath_def plainHost_def HasPrefix_def)

lemma ReadDir_plainHost: "ReadDir plainHost p = None"
  by (simp add: plainHost_def)

lemma shellPaths_lookup:
  "map_of shellPaths ''bash'' = Some ''~/.bash_history''"
  "map_of shellPaths ''zsh'' = Some ''~/.zsh_history''"
  by (simp_all add: shellPaths_def)

text \<open>
The theorem on \<open>plainHost\<close>, where only the history of \<^verbatim>\<open>bash\<close> exists, and on
  \<open>longHost\<close>, where the scan of that history ends with an error.
\<close>

theorem unreadable_shell_is_absent_witness:
  "goRuntime plainHost
   \<and> analyzeShells plainHost = Some (the (analyzeShells plainHost))
   \<and> openFile plainHost (expandPath plainHost ''~/.zsh_history'') = None
   \<and> Histories (the (analyzeShells plainHost)) ''zsh'' = None
   \<and> ShellConfigs (the (analyzeShells plainHost)) ''zsh'' = None
   \<and> Histories (the (analyzeShells plainHost)) ''bash'' = Some plainEntries
   \<and> ShellConfigs (the (analyzeShells plainHost)) ''bash'' = analyzeShellConfigs plainHost ''bash''
   \<and> goRuntime longHost
   \<and> openFile longHost (expandPath longHost ''~/.bash_history'') = Some longLine
   \<and> snd (scanLines longLine)
   \<and> historyOf longHost ''~/.bash_history'' = None"
proof -
  let ?d = "the (analyzeShells plainHost)"
  have total: "analyzeShells plainHost = Some ?d"
    using unreadable_shell_is_absent [OF goRuntime_plainHost, of ?d "[]" "[]" "[]"]
    by (auto simp: ReadDir_plainHost)
  have missing: "openFile plainHost (expandPath plainHost ''~/.zsh_history'') = None"
    by (simp add: expandPath_plainHost) (simp add: plainHost_def)
  have long: "snd (scanLines longLine)" by (simp add: scanLines_longLine)
  show ?thesis
    using unreadable_shell_is_absent
            [OF goRuntime_plainHost, of ?d "''zsh''" "''~/.zsh_history''" "[]"]
      unreadable_shell_is_absent
            [OF goRuntime_plainHost, of ?d "''bash''" "''~/.bash_history''" "[]"]
      unreadable_shell_is_absent
            [OF goRuntime_longHost, of ?d "''bash''" "''~/.bash_history''" longLine]
      total missing long openFile_longHost goRuntime_plainHost goRuntime_longHost
    by (simp add: shellPaths_lookup historyOf_plainHost)
qed

section \<open>Properties of the passes over several shells\<close>

lemma writeProficiency_add:
  "writeProficiency n xs p = p ++ writeProficiency n xs Map.empty"
  by (rule ext) (simp add: writeProficiency_apply map_add_def split: option.splits)

lemma analyzeCommands_Proficiency_add:
  "Proficiency (TechnicalProfile (Insights (analyzeCommands h entries data))) =
     Proficiency (TechnicalProfile (Insights data))
       ++ Proficiency (TechnicalProfile (Insights (analyzeCommands h entries initShellData)))"
proof -
  have init: "Proficiency (TechnicalProfile (Insights initShellData)) = Map.empty"
    by (simp add: initShellData_def)
  show ?thesis
    unfolding analyzeCommands_Proficiency init Let_def
    by (rule ext) (simp add: writeProficiency_apply map_add_def split: option.splits)
qed

lemma shellsLoop_unreadable:
  "\<forall>(s, p)\<in>set xs. historyOf h p = None \<Longrightarrow> shellsLoop h xs data = Some data"
  by (induction xs) (auto simp: analyzeShell_unreadable)

lemma shellsLoop_append:
  "shellsLoop h (xs @ ys) data =
     (case shellsLoop h xs data of None \<Rightarrow> None | Some d \<Rightarrow> shellsLoop h ys d)"
  by (induction xs arbitrary: data) (auto split: option.splits)

lemma shellsLoop_last_readable:
  assumes "shellsLoop h (before @ (shell, path) # rest) data = Some result"
    and "historyOf h path = Some history"
    and "\<forall>(s, p)\<in>set rest. historyOf h p = None"
  shows "\<exists>d. Insights result = Insights (analyzeCommands h history d)"
proof -
  from assms(1) obtain d1 where d1: "shellsLoop h before data = Some d1"
    and r: "shellsLoop h ((shell, path) # rest) d1 = Some result"
    by (auto simp: shellsLoop_append split: option.splits)
  from r obtain d2 where d2: "analyzeShell h shell path d1 = Some d2"
    and r2: "shellsLoop h rest d2 = Some result"
    by (auto split: option.splits)
  have "result = d2" using r2 shellsLoop_unreadable [OF assms(3), of d2] by simp
  then show ?thesis using analyzeShell_readable(3) [OF assms(2) d2] by blast
qed

lemma analyzeShell_Proficiency_dom:
  assumes "analyzeShell h shell path data = Some data'"
  shows "dom (Proficiency (TechnicalProfile (Insights data)))
           \<subseteq> dom (Proficiency (TechnicalProfile (Insights data')))"
proof (cases "historyOf h path")
  case None
  then show ?thesis using assms by (simp add: analyzeShell_unreadable)
next
  case (Some entries)
  show ?thesis
    unfolding analyzeShell_readable(3) [OF Some assms]
    by (subst analyzeCommands_Proficiency_add) simp
qed

lemma shellsLoop_Proficiency_dom:
  "shellsLoop h xs data = Some data' \<Longrightarrow>
   dom (Proficiency (TechnicalProfile (Insights data)))
     \<subseteq> dom (Proficiency (TechnicalProfile (Insights data')))"
proof (induction xs arbitrary: data)
  case Nil
  then show ?case by simp
next
  case (Cons x xs)
  obtain s p where x: "x = (s, p)" by (cases x)
  from Cons.prems obtain d1 where d1: "analyzeShell h s p data = Some d1"
    and rest: "shellsLoop h xs d1 = Some data'"
    by (auto simp: x split: option.splits)
  show ?case using analyzeShell_Proficiency_dom [OF d1] Cons.IH [OF rest] by blast
qed

lemma shellsLoop_Proficiency_persists:
  "shellsLoop h xs data = Some data' \<Longrightarrow> (shell, path) \<in> set xs \<Longrightarrow>
   historyOf h path = Some history \<Longrightarrow>
   dom (Proficiency (TechnicalProfile (Insights (analyzeCommands h history initShellData))))
     \<subseteq> dom (Proficiency (TechnicalProfile (Insights data')))"
proof (induction xs arbitrary: data)
  case Nil
  then show ?case by simp
next
  case (Cons x xs)
  obtain s p where x: "x = (s, p)" by (cases x)
  from Cons.prems(1) obtain d1 where d1: "analyzeShell h s p data = Some d1"
    and rest: "shellsLoop h xs d1 = Some data'"
    by (auto simp: x split: option.splits)
  show ?case
  proof (cases "(shell, path) = x")
    case True
    then have d1': "analyzeShell h shell path data = Some d1" using d1 x by simp
    have "dom (Proficiency (TechnicalProfile (Insights (analyzeCommands h history initShellData))))
            \<subseteq> dom (Proficiency (TechnicalProfile (Insights d1)))"
      unfolding analyzeShell_readable(3) [OF Cons.prems(3) d1']
      by (subst (2) analyzeCommands_Proficiency_add) simp
    then show ?thesis using shellsLoop_Proficiency_dom [OF rest] by blast
  next
    case False
    then have "(shell, path) \<in> set xs" using Cons.prems(2) by simp
    then show ?thesis using Cons.IH [OF rest _ Cons.prems(3)] by blast
  qed
qed

text \<open>
C10.  \<open>TechStack\<close>, \<open>PeakHours\<close> and \<open>Productivity\<close> after a pass of \<open>analyzeCommands\<close>
  are those of the same pass on fresh data: nothing of their earlier values remains.
  \<open>Proficiency\<close> after the pass is the map from before the pass, overwritten at the keys
  that the pass writes.  In the data that \<open>analyzeShells\<close> returns, the three fields are
  those of a pass over the history of the last shell, in the order of the loop, whose
  history could be read, and every key that the pass over the history of any shell writes
  to \<open>Proficiency\<close> is a key of \<open>Proficiency\<close> at the end.
\<close>

theorem pass_replaces_stack_hours_productivity:
  "TechStack (TechnicalProfile (Insights (analyzeCommands h entries data)))
     = TechStack (TechnicalProfile (Insights (analyzeCommands h entries initShellData)))
   \<and> PeakHours (WorkPatterns (Insights (analyzeCommands h entries data)))
     = PeakHours (WorkPatterns (Insights (analyzeCommands h entries initShellData)))
   \<and> Productivity (WorkPatterns (Insights (analyzeCommands h entries data)))
     = Productivity (WorkPatterns (Insights (analyzeCommands h entries initShellData)))
   \<and> Proficiency (TechnicalProfile (Insights (analyzeCommands h entries data)))
     = Proficiency (TechnicalProfile (Insights data))
         ++ Proficiency (TechnicalProfile (Insights (analyzeCommands h entries initShellData)))
   \<and> (analyzeShells h = Some result
        \<and> rangeStrings h shellPaths = before @ (shell, path) # rest
        \<and> historyOf h path = Some history
        \<and> (\<forall>(s, p)\<in>set rest. historyOf h p = None)
      \<longrightarrow> TechStack (TechnicalProfile (Insights result))
            = TechStack (TechnicalProfile (Insights (analyzeCommands h history initShellData)))
          \<and> PeakHours (WorkPatterns (Insights result))
            = PeakHours (WorkPatterns (Insights (analyzeCommands h history initShellData)))
          \<and> Productivity (WorkPatterns (Insights result))
            = Productivity (WorkPatterns (Insights (analyzeCommands h history initShellData))))
   \<and> (goRuntime h \<and> analyzeShells h = Some result
        \<and> (shell', path') \<in> set shellPaths \<and> historyOf h path' = Some history'
      \<longrightarrow> dom (Proficiency (TechnicalProfile (Insights (analyzeCommands h history' initShellData))))
            \<subseteq> dom (Proficiency (TechnicalProfile (Insights result))))"
proof -
  have replaced:
    "TechStack (TechnicalProfile (Insights (analyzeCommands h es d)))
       = TechStack (TechnicalProfile (Insights (analyzeCommands h es initShellData)))
     \<and> PeakHours (WorkPatterns (Insights (analyzeCommands h es d)))
       = PeakHours (WorkPatterns (Insights (analyzeCommands h es initShellData)))
     \<and> Productivity (WorkPatterns (Insights (analyzeCommands h es d)))
       = Productivity (WorkPatterns (Insights (analyzeCommands h es initShellData)))" for es d
    by (simp only: analyzeCommands_TechStack analyzeCommands_PeakHours
        analyzeCommands_Productivity)
  have last: "TechStack (TechnicalProfile (Insights result))
            = TechStack (TechnicalProfile (Insights (analyzeCommands h history initShellData)))
          \<and> PeakHours (WorkPatterns (Insights result))
            = PeakHours (WorkPatterns (Insights (analyzeCommands h history initShellData)))
          \<and> Productivity (WorkPatterns (Insights result))
            = Productivity (WorkPatterns (Insights (analyzeCommands h history initShellData)))"
    if a: "analyzeShells h = Some result"
      and b: "rangeStrings h shellPaths = before @ (shell, path) # rest"
      and c: "historyOf h path = Some history"
      and d: "\<forall>(s, p)\<in>set rest. historyOf h p = None"
  proof -
    have "shellsLoop h (before @ (shell, path) # rest) initShellData = Some result"
      using a b by (simp add: analyzeShells_def)
    from shellsLoop_last_readable [OF this c d]
    obtain d1 where "Insights result = Insights (analyzeCommands h history d1)" by blast
    then show ?thesis using replaced [of history d1] by simp
  qed
  have persists:
    "dom (Proficiency (TechnicalProfile (Insights (analyzeCommands h history' initShellData))))
            \<subseteq> dom (Proficiency (TechnicalProfile (Insights result)))"
    if a: "goRuntime h" and b: "analyzeShells h = Some result"
      and c: "(shell', path') \<in> set shellPaths" and d: "historyOf h path' = Some history'"
  proof -
    have "visitsAll (rangeStrings h)" using a by (simp add: goRuntime_def)
    then have "set (rangeStrings h shellPaths) = set shellPaths" by (rule visitsAll_set)
    then have m: "(shell', path') \<in> set (rangeStrings h shellPaths)" using c by simp
    have l: "shellsLoop h (rangeStrings h shellPaths) initShellData = Some result"
      using b by (simp add: analyzeShells_def)
    show ?thesis using shellsLoop_Proficiency_persists [OF l m d] .
  qed
  show ?thesis
    using replaced [of entries data] analyzeCommands_Proficiency_add [of h entries data]
      last persists
    by blast
qed

lemma goRuntime_twoHost: "goRuntime twoHost"
  using goRuntime_plainHost by (simp add: goRuntime_def twoHost_def)

lemma historyLoop_twoHost: "historyLoop twoHost i ls = historyLoop plainHost i ls"
  by (induction ls arbitrary: i) (simp_all add: categorizeCommand_def twoHost_def Let_def)

lemma installed_twoHost: "getInstalledLanguages twoHost = getInstalledLanguages plainHost"
  by (simp add: getInstalledLanguages_def twoHost_def)

lemma expandPath_twoHost: "expandPath twoHost p = expandPath plainHost p"
  by (simp add: expandPath_def twoHost_def split: option.splits)

lemma zsh_lines: "scanLines ''ls\<newline>'' = ([''ls''], False)"
  by (simp add: scanLines_def MaxScanTokenSize_def dropCR_def)

lemma historyOf_twoHost:
  "historyOf twoHost ''~/.bash_history'' = Some plainEntries"
  "historyOf twoHost ''~/.zsh_history'' = Some zshEntries"
  "historyOf twoHost ''~/.local/share/fish/fish_history'' = None"
  unfolding historyOf_def expandPath_twoHost expandPath_plainHost plainEntries_def zshEntries_def
    readHistory_def historyLoop_twoHost
  by (simp_all add: twoHost_def plainHost_def plainHistory_lines zsh_lines)

lemma zshEntries_commands: "map Command zshEntries = [''ls'']"
  unfolding zshEntries_def readHistory_def historyLoop_twoHost
  by (simp add: twoHost_def zsh_lines Let_def cleanHistoryLine_def Fields_def
      spaceWidth_def spaceSeqs_def HasPrefix_def IsSpace_def)

lemma TechStack_zsh:
  "TechStack (TechnicalProfile (Insights (analyzeCommands twoHost zshEntries initShellData)))
     = [''java'']"
  unfolding analyzeCommands_TechStack langUsage_commands zshEntries_commands installed_twoHost
    installed_plainHost
  by (simp add: countLanguages_def mentions_def getPackageManager_def managers_def incr_def
      HasPrefix_def valueAt_def twoHost_def plainHost_def)

lemma Proficiency_bash:
  "Proficiency (TechnicalProfile (Insights (analyzeCommands twoHost plainEntries initShellData)))
     ''python'' = Some (4 / 10)"
proof -
  have len: "length plainEntries = 10"
    using arg_cong [OF plainEntries_commands, of length] by simp
  then have ne: "plainEntries \<noteq> []" by auto
  have cnt: "languageCount plainEntries ''python'' = 4"
    by (simp add: languageCount_commands plainEntries_commands mentions_def HasPrefix_def
        getPackageManager_def managers_def)
  show ?thesis
    by (simp add: proficiency_formula [OF goRuntime_twoHost ne] tools_def installed_twoHost
        installed_plainHost cnt len)
qed

lemma ReadDir_twoHost: "ReadDir twoHost p = None"
  by (simp add: twoHost_def plainHost_def)

lemma analyzeShells_twoHost: "analyzeShells twoHost = Some (the (analyzeShells twoHost))"
  using shellsLoop_total [of twoHost "rangeStrings twoHost shellPaths" initShellData]
  by (auto simp: ReadDir_twoHost analyzeShells_def)

lemma order_twoHost:
  "rangeStrings twoHost shellPaths =
     [(''bash'', ''~/.bash_history'')] @ (''zsh'', ''~/.zsh_history'')
       # [(''fish'', ''~/.local/share/fish/fish_history'')]"
  by (simp add: twoHost_def plainHost_def shellPaths_def)

text \<open>
The theorem on \<open>twoHost\<close>, where the loop reads the history of \<^verbatim>\<open>bash\<close>, then that of
  \<^verbatim>\<open>zsh\<close>, and finds none for \<^verbatim>\<open>fish\<close>: \<open>TechStack\<close> at the end is that of the history of
  \<^verbatim>\<open>zsh\<close>, without \<^verbatim>\<open>python\<close>, and \<open>Proficiency\<close> still has the key \<^verbatim>\<open>python\<close> that the
  pass over the history of \<^verbatim>\<open>bash\<close> wrote.
\<close>

theorem pass_replaces_stack_hours_productivity_witness:
  "goRuntime twoHost
   \<and> analyzeShells twoHost = Some (the (analyzeShells twoHost))
   \<and> rangeStrings twoHost shellPaths =
       [(''bash'', ''~/.bash_history'')] @ (''zsh'', ''~/.zsh_history'')
         # [(''fish'', ''~/.local/share/fish/fish_history'')]
   \<and> historyOf twoHost ''~/.bash_history'' = Some plainEntries
   \<and> historyOf twoHost ''~/.zsh_history'' = Some zshEntries
   \<and> historyOf twoHost ''~/.local/share/fish/fish_history'' = None
   \<and> TechStack (TechnicalProfile (Insights (the (analyzeShells twoHost)))) = [''java'']
   \<and> PeakHours (WorkPatterns (Insights (the (analyzeShells twoHost))))
       = PeakHours (WorkPatterns (Insights (analyzeCommands twoHost zshEntries initShellData)))
   \<and> Productivity (WorkPatterns (Insights (the (analyzeShells twoHost))))
       = Productivity (WorkPatterns (Insights (analyzeCommands twoHost zshEntries initShellData)))
   \<and> Proficiency (TechnicalProfile (Insights (analyzeCommands twoHost plainEntries initShellData)))
       ''python'' = Some (4 / 10)
   \<and> ''python'' \<in> dom (Proficiency (TechnicalProfile (Insights (the (analyzeShells twoHost)))))"
proof -
  let ?d = "the (analyzeShells twoHost)"
  have bash: "(''bash'', ''~/.bash_history'') \<in> set shellPaths" by (simp add: shellPaths_def)
  have rest: "\<forall>(s, p)\<in>set [(''fish'', ''~/.local/share/fish/fish_history'')].
                historyOf twoHost p = None"
    by (simp add: historyOf_twoHost)
  have py: "''python'' \<in> dom (Proficiency (TechnicalProfile
              (Insights (analyzeCommands twoHost plainEntries initShellData))))"
    using Proficiency_bash by blast
  show ?thesis
    using pass_replaces_stack_hours_productivity
        [of twoHost "[]" initShellData ?d "[(''bash'', ''~/.bash_history'')]" "''zsh''"
          "''~/.zsh_history''" "[(''fish'', ''~/.local/share/fish/fish_history'')]" zshEntries
          "''bash''" "''~/.bash_history''" plainEntries]
      goRuntime_twoHost analyzeShells_twoHost order_twoHost historyOf_twoHost rest bash py
      TechStack_zsh Proficiency_bash
    by (simp only: simp_thms) blast
qed

end
